theory Spec2Isabelle
  imports Main
begin

section \<open>The JavaScript values the kinematics module computes with\<close>

text \<open>
  \<^verbatim>\<open>resources/js/kinematics.js\<close> computes with JavaScript numbers and arrays of numbers.
  The built-in operations on numbers are not code of the module; the model takes them as one
  parameter, a record of the operations the module calls. Every function of the module is
  translated over an arbitrary such record, so a theorem about it holds whatever the
  arithmetic does (rounding, \<^verbatim>\<open>NaN\<close>, infinities included).
\<close>

record 'n runtime =
  r_add :: "'n \<Rightarrow> 'n \<Rightarrow> 'n"    \<comment> \<open>\<^verbatim>\<open>x + y\<close> on two numbers\<close>
  r_sub :: "'n \<Rightarrow> 'n \<Rightarrow> 'n"    \<comment> \<open>\<^verbatim>\<open>x - y\<close>\<close>
  r_mul :: "'n \<Rightarrow> 'n \<Rightarrow> 'n"    \<comment> \<open>\<^verbatim>\<open>x * y\<close>\<close>
  r_div :: "'n \<Rightarrow> 'n \<Rightarrow> 'n"    \<comment> \<open>\<^verbatim>\<open>x / y\<close>\<close>
  r_le :: "'n \<Rightarrow> 'n \<Rightarrow> bool"   \<comment> \<open>\<^verbatim>\<open>x <= y\<close>\<close>
  r_lit :: "int \<Rightarrow> int \<Rightarrow> 'n"   \<comment> \<open>the numeric literal \<^verbatim>\<open>m\<close>e\<^verbatim>\<open>k\<close>: \<open>r_lit 5 (-1)\<close> is \<^verbatim>\<open>0.5\<close>\<close>
  r_nan :: "'n"                \<comment> \<open>what \<^verbatim>\<open>undefined\<close> becomes in arithmetic\<close>
  r_Number_toFixed :: "nat \<Rightarrow> 'n \<Rightarrow> 'n"  \<comment> \<open>\<^verbatim>\<open>Number(x.toFixed(d))\<close>\<close>
  r_toFixed :: "nat \<Rightarrow> 'n \<Rightarrow> string"     \<comment> \<open>\<^verbatim>\<open>x.toFixed(d)\<close>\<close>

text \<open>
  An array is the list of its elements; an element is a number or \<^verbatim>\<open>undefined\<close> (a hole
  of \<^verbatim>\<open>new Array(n)\<close>, or a slot skipped by a write beyond the end), written \<open>None\<close>.
\<close>

type_synonym 'n array = "'n option list"

definition new_Array :: "nat \<Rightarrow> 'n array" where
  "new_Array n = replicate n None"

definition aget :: "'n array \<Rightarrow> int \<Rightarrow> 'n option" where
  \<comment> \<open>\<^verbatim>\<open>xs[i]\<close>: \<^verbatim>\<open>undefined\<close> outside the array\<close>
  "aget xs i = (if 0 \<le> i \<and> i < int (length xs) then xs ! nat i else None)"

definition aset :: "'n array \<Rightarrow> nat \<Rightarrow> 'n \<Rightarrow> 'n array" where
  \<comment> \<open>\<^verbatim>\<open>xs[i] = v\<close>: a write at or beyond the end extends the array, leaving holes\<close>
  "aset xs i v =
     (if i < length xs then xs[i := Some v]
      else xs @ replicate (i - length xs) None @ [Some v])"

definition push :: "'n array \<Rightarrow> 'n \<Rightarrow> 'n array" where
  "push xs v = xs @ [Some v]"

definition splice :: "'a list \<Rightarrow> nat \<Rightarrow> nat \<Rightarrow> 'a list \<Rightarrow> 'a list" where
  \<comment> \<open>the array after \<^verbatim>\<open>xs.splice(start, deleteCount, ...items)\<close>\<close>
  "splice xs start deleteCount items = take start xs @ items @ drop (start + deleteCount) xs"

definition ToNumber :: "'n runtime \<Rightarrow> 'n option \<Rightarrow> 'n" where
  "ToNumber R v = (case v of Some x \<Rightarrow> x | None \<Rightarrow> r_nan R)"

definition elt :: "'n runtime \<Rightarrow> 'n array \<Rightarrow> int \<Rightarrow> 'n" where
  \<comment> \<open>\<^verbatim>\<open>xs[i]\<close> as an operand of \<^verbatim>\<open>+ - * /\<close>\<close>
  "elt R xs i = ToNumber R (aget xs i)"

text \<open>\<^verbatim>\<open>for (let i = i0; i < n; i++) s = body(i, s)\<close>, with \<open>n\<close> fixed before the loop.\<close>

function for_loop :: "nat \<Rightarrow> nat \<Rightarrow> (nat \<Rightarrow> 'a \<Rightarrow> 'a) \<Rightarrow> 'a \<Rightarrow> 'a" where
  "for_loop i n body s = (if i < n then for_loop (i + 1) n body (body i s) else s)"
  by pat_completeness auto
termination
  by (relation "measure (\<lambda>(i, n, body, s). n - i)") auto

declare for_loop.simps [simp del]

section \<open>Differentiators and integrators\<close>

definition computeVFromX :: "'n runtime \<Rightarrow> 'n array \<Rightarrow> 'n \<Rightarrow> 'n array" where
  "computeVFromX R xs dt =
     (let n = length xs
      in for_loop 0 n
           (\<lambda>i vs. aset vs i
              (if i = 0 then r_div R (r_sub R (elt R xs 1) (elt R xs 0)) dt
               else if int i = int n - 1
                 then r_div R (r_sub R (elt R xs (int n - 1)) (elt R xs (int n - 2))) dt
               else r_div R (r_sub R (elt R xs (int i + 1)) (elt R xs (int i - 1)))
                      (r_mul R (r_lit R 2 0) dt)))
           (new_Array n))"

definition computeAFromX :: "'n runtime \<Rightarrow> 'n array \<Rightarrow> 'n \<Rightarrow> 'n array" where
  "computeAFromX R xs dt =
     (let n = length xs
      in for_loop 0 n
           (\<lambda>i as. aset as i
              (if i = 0
                 then r_div R
                        (r_add R (r_sub R (elt R xs 2) (r_mul R (r_lit R 2 0) (elt R xs 1)))
                           (elt R xs 0))
                        (r_mul R dt dt)
               else if int i = int n - 1
                 then r_div R
                        (r_add R
                           (r_sub R (elt R xs (int n - 1))
                              (r_mul R (r_lit R 2 0) (elt R xs (int n - 2))))
                           (elt R xs (int n - 3)))
                        (r_mul R dt dt)
               else r_div R
                      (r_add R
                         (r_sub R (elt R xs (int i + 1)) (r_mul R (r_lit R 2 0) (elt R xs (int i))))
                         (elt R xs (int i - 1)))
                      (r_mul R dt dt)))
           (new_Array n))"

definition computeAFromV :: "'n runtime \<Rightarrow> 'n array \<Rightarrow> 'n \<Rightarrow> 'n array" where
  "computeAFromV R vs dt =
     (let n = length vs
      in for_loop 0 n
           (\<lambda>i as. aset as i
              (if i = 0 then r_div R (r_sub R (elt R vs 1) (elt R vs 0)) dt
               else if int i = int n - 1
                 then r_div R (r_sub R (elt R vs (int n - 1)) (elt R vs (int n - 2))) dt
               else r_div R (r_sub R (elt R vs (int i + 1)) (elt R vs (int i - 1)))
                      (r_mul R (r_lit R 2 0) dt)))
           (new_Array n))"

definition integrateVToX :: "'n runtime \<Rightarrow> 'n array \<Rightarrow> 'n \<Rightarrow> 'n \<Rightarrow> 'n array" where
  "integrateVToX R vs x0 dt =
     (let n = length vs;
          xs = aset (new_Array n) 0 x0
      in for_loop 1 n
           (\<lambda>k xs. aset xs k
              (r_add R (elt R xs (int k - 1))
                 (r_mul R
                    (r_mul R (r_lit R 5 (- 1)) (r_add R (elt R vs (int k - 1)) (elt R vs (int k))))
                    dt)))
           xs)"

definition integrateAToV :: "'n runtime \<Rightarrow> 'n array \<Rightarrow> 'n \<Rightarrow> 'n \<Rightarrow> 'n array" where
  "integrateAToV R as v0 dt =
     (let n = length as;
          vs = aset (new_Array n) 0 v0
      in for_loop 1 n
           (\<lambda>k vs. aset vs k
              (r_add R (elt R vs (int k - 1)) (r_mul R (elt R as (int k - 1)) dt)))
           vs)"

section \<open>The generator\<close>

record 'n samples =
  times_f :: "'n array"
  xs_f :: "'n array"
  vs_f :: "'n array"
  as_f :: "'n array"

text \<open>
  The loop of \<^verbatim>\<open>computeKinematics\<close>: \<open>t\<close> is the loop variable, \<open>acc\<close> the four arrays
  pushed to so far. It ends when the test \<^verbatim>\<open>t <= t1 + 1e-12\<close> fails or at the
  \<^verbatim>\<open>break\<close>, which is taken after a push once the length has reached \<open>maxPoints\<close>.
\<close>

function computeKinematics_loop ::
  "'n runtime \<Rightarrow> 'n \<Rightarrow> 'n \<Rightarrow> 'n \<Rightarrow> 'n \<Rightarrow> 'n \<Rightarrow> nat \<Rightarrow> 'n \<Rightarrow> 'n samples \<Rightarrow> 'n samples"
where
  "computeKinematics_loop R x0 v0 a t1 dt maxPoints t acc =
     (if r_le R t (r_add R t1 (r_lit R 1 (- 12))) then
        let x = r_add R (r_add R x0 (r_mul R v0 t))
                  (r_mul R (r_mul R (r_mul R (r_lit R 5 (- 1)) a) t) t);
            v = r_add R v0 (r_mul R a t);
            acc' = \<lparr> times_f = push (times_f acc) (r_Number_toFixed R 8 t),
                     xs_f = push (xs_f acc) (r_Number_toFixed R 8 x),
                     vs_f = push (vs_f acc) (r_Number_toFixed R 8 v),
                     as_f = push (as_f acc) (r_Number_toFixed R 8 a) \<rparr>
        in if maxPoints \<le> length (times_f acc') then acc'
           else computeKinematics_loop R x0 v0 a t1 dt maxPoints (r_add R t dt) acc'
      else acc)"
  by pat_completeness auto
termination
  by (relation "measure (\<lambda>(R, x0, v0, a, t1, dt, maxPoints, t, acc).
                           maxPoints - length (times_f acc))")
     (auto simp: push_def)

declare computeKinematics_loop.simps [simp del]

definition computeKinematics ::
  "'n runtime \<Rightarrow> 'n \<Rightarrow> 'n \<Rightarrow> 'n \<Rightarrow> 'n \<Rightarrow> 'n \<Rightarrow> 'n \<Rightarrow> nat \<Rightarrow> 'n samples"
where
  "computeKinematics R x0 v0 a t0 t1 dt maxPoints =
     (let acc = \<lparr> times_f = [], xs_f = [], vs_f = [], as_f = [] \<rparr>
      in if r_le R dt (r_lit R 0 0) then acc
         else computeKinematics_loop R x0 v0 a t1 dt maxPoints t0 acc)"

section \<open>The shared state and a drag edit\<close>

record 'n state = "'n samples" +
  x0_f :: 'n
  v0_f :: 'n
  dt_f :: 'n

text \<open>
  \<^verbatim>\<open>applyDragSync\<close> writes through \<^verbatim>\<open>xs\<close>, \<^verbatim>\<open>vs\<close>, \<^verbatim>\<open>as\<close>, which are the arrays
  \<^verbatim>\<open>state.xs\<close>, \<^verbatim>\<open>state.vs\<close>, \<^verbatim>\<open>state.as\<close> themselves, and replaces the contents of
  the other two in place with \<^verbatim>\<open>splice\<close>. The state holds four distinct arrays
  (\<^verbatim>\<open>updateFromForm\<close> stores the four fresh arrays of \<^verbatim>\<open>computeKinematics\<close>), so the model
  passes the record and returns it updated. The closing call of
  \<^verbatim>\<open>refreshChartsAndTable\<close> reads the state to redraw the table and the charts and writes
  nothing to it.
\<close>

definition applyDragSync :: "'n runtime \<Rightarrow> string \<Rightarrow> nat \<Rightarrow> 'n \<Rightarrow> 'n state \<Rightarrow> 'n state" where
  "applyDragSync R chartType index newValue state =
     (let x0 = x0_f state; v0 = v0_f state; dt = dt_f state
      in if chartType = ''position'' then
           let s1 = state\<lparr> xs_f := aset (xs_f state) index newValue \<rparr>;
               newV = computeVFromX R (xs_f s1) dt;
               newA = computeAFromX R (xs_f s1) dt;
               s2 = s1\<lparr> vs_f := splice (vs_f s1) 0 (length (vs_f s1)) newV \<rparr>
           in s2\<lparr> as_f := splice (as_f s2) 0 (length (as_f s2)) newA \<rparr>
         else if chartType = ''velocity'' then
           let s1 = state\<lparr> vs_f := aset (vs_f state) index newValue \<rparr>;
               newX = integrateVToX R (vs_f s1) x0 dt;
               newA = computeAFromV R (vs_f s1) dt;
               s2 = s1\<lparr> xs_f := splice (xs_f s1) 0 (length (xs_f s1)) newX \<rparr>
           in s2\<lparr> as_f := splice (as_f s2) 0 (length (as_f s2)) newA \<rparr>
         else if chartType = ''acceleration'' then
           let s1 = state\<lparr> as_f := aset (as_f state) index newValue \<rparr>;
               newV = integrateAToV R (as_f s1) v0 dt;
               newX = integrateVToX R newV x0 dt;
               s2 = s1\<lparr> vs_f := splice (vs_f s1) 0 (length (vs_f s1)) newV \<rparr>
           in s2\<lparr> xs_f := splice (xs_f s2) 0 (length (xs_f s2)) newX \<rparr>
         else state)"

text \<open>The invariant of the data model: the four arrays have one length.\<close>

definition equal_lengths :: "('n, 'b) samples_scheme \<Rightarrow> bool" where
  "equal_lengths s \<longleftrightarrow>
     length (xs_f s) = length (times_f s) \<and> length (vs_f s) = length (times_f s)
     \<and> length (as_f s) = length (times_f s)"

text \<open>
  The sample times as the specification words them: \<open>t0\<close>, \<open>t0 + dt\<close>, \<open>t0 + dt + dt\<close>,
  \<open>\<dots>\<close> (each the previous one plus \<open>dt\<close>, as the loop variable is), while
  \<^verbatim>\<open>t <= t1 + 1e-12\<close>, and no more of them than the cap allows. The loop tests the cap
  after a push, so the first time is not capped.
\<close>

definition sample_times :: "'n runtime \<Rightarrow> 'n \<Rightarrow> 'n \<Rightarrow> 'n \<Rightarrow> nat \<Rightarrow> 'n list" where
  "sample_times R t0 t1 dt maxPoints =
     takeWhile (\<lambda>t. r_le R t (r_add R t1 (r_lit R 1 (- 12))))
       (map (\<lambda>k. ((\<lambda>t. r_add R t dt) ^^ k) t0) [0..<max 1 maxPoints])"

text \<open>
  \<open>run R lim dt n t\<close> walks \<open>n\<close> sample times from \<open>t\<close>: the time reached when each of the
  \<open>n\<close> passes the test \<open>t \<le> lim\<close>, and \<open>None\<close> when one fails it.
\<close>

fun run :: "'n runtime \<Rightarrow> 'n \<Rightarrow> 'n \<Rightarrow> nat \<Rightarrow> 'n \<Rightarrow> 'n option" where
  "run R lim dt 0 t = Some t"
| "run R lim dt (Suc n) t = (if r_le R t lim then run R lim dt n (r_add R t dt) else None)"

section \<open>The CSV export\<close>

datatype error = TypeError

definition call_toFixed :: "'n runtime \<Rightarrow> nat \<Rightarrow> 'n option \<Rightarrow> error + string" where
  \<comment> \<open>\<^verbatim>\<open>v.toFixed(d)\<close>: a property read on \<^verbatim>\<open>undefined\<close> throws\<close>
  "call_toFixed R d v = (case v of None \<Rightarrow> Inl TypeError | Some x \<Rightarrow> Inr (r_toFixed R d x))"

fun join :: "string \<Rightarrow> string list \<Rightarrow> string" where
  "join sep [] = []"
| "join sep [x] = x"
| "join sep (x # y # ys) = x @ sep @ join sep (y # ys)"

definition csv_row ::
  "'n runtime \<Rightarrow> 'n array \<Rightarrow> 'n array \<Rightarrow> 'n array \<Rightarrow> 'n array \<Rightarrow> nat \<Rightarrow> error + string list"
where
  \<comment> \<open>the array literal pushed at index \<open>i\<close>, its four elements evaluated left to right\<close>
  "csv_row R times' xs vs as i =
     (case call_toFixed R 6 (aget times' (int i)) of Inl e \<Rightarrow> Inl e | Inr t \<Rightarrow>
      case call_toFixed R 6 (aget xs (int i)) of Inl e \<Rightarrow> Inl e | Inr x \<Rightarrow>
      case call_toFixed R 6 (aget vs (int i)) of Inl e \<Rightarrow> Inl e | Inr v \<Rightarrow>
      case call_toFixed R 6 (aget as (int i)) of Inl e \<Rightarrow> Inl e | Inr a \<Rightarrow>
      Inr [t, x, v, a])"

definition csvFromData ::
  "'n runtime \<Rightarrow> 'n array \<Rightarrow> 'n array \<Rightarrow> 'n array \<Rightarrow> 'n array \<Rightarrow> error + string"
where
  "csvFromData R times' xs vs as =
     (let lines = Inr [[''t (s)'', ''x (m)'', ''v (m/s)'', ''a (m/s^2)'']];
          lines' = for_loop 0 (length times')
                     (\<lambda>i acc. case acc of Inl e \<Rightarrow> Inl e
                        | Inr ls \<Rightarrow> (case csv_row R times' xs vs as i of Inl e \<Rightarrow> Inl e
                                      | Inr row \<Rightarrow> Inr (ls @ [row])))
                     lines
      in case lines' of Inl e \<Rightarrow> Inl e
         | Inr ls \<Rightarrow> Inr (join [CHR 0x0A] (map (join '','') ls)))"

section \<open>IEEE 754 double precision, the numbers of a JavaScript engine\<close>

text \<open>
  A finite double is \<open>Fin s m e\<close>, the number \<open>\<plusminus> m \<cdot> 2\<^sup>e\<close> with sign \<open>s\<close> (true for
  negative), in the format's own form: \<open>m < 2\<^sup>5\<^sup>3\<close>, and either \<open>2\<^sup>5\<^sup>2 \<le> m\<close> and
  \<open>-1074 \<le> e \<le> 971\<close>, or \<open>e = -1074\<close> (subnormal numbers and the two zeros). Every
  operation rounds its exact result to the nearest double, ties to the even significand.
\<close>

datatype double = NaN | Inf bool | Fin bool int int

function nbits :: "int \<Rightarrow> int" where
  \<comment> \<open>the number of binary digits of \<open>m\<close>\<close>
  "nbits m = (if m \<le> 0 then 0 else 1 + nbits (m div 2))"
  by pat_completeness auto
termination
  by (relation "measure nat") auto

declare nbits.simps [simp del]

definition fl :: "bool \<Rightarrow> int \<Rightarrow> int \<Rightarrow> double" where
  \<comment> \<open>the double nearest to \<open>\<plusminus> m \<cdot> 2\<^sup>e\<close>, for \<open>0 < m\<close>; \<open>p\<close> is the exponent of its last place\<close>
  "fl s m e =
     (let p = max (nbits m + e - 53) (- 1074)
      in if p \<le> e then (if 971 < p then Inf s else Fin s (m * 2 ^ nat (e - p)) p)
         else let sh = nat (p - e); q = m div 2 ^ sh; r = m mod 2 ^ sh; h = 2 ^ (sh - 1);
                  q' = (if r < h then q else if h < r then q + 1
                        else if even q then q else q + 1);
                  m' = (if q' = 2 ^ 53 then 2 ^ 52 else q');
                  p' = (if q' = 2 ^ 53 then p + 1 else p)
              in if 971 < p' then Inf s else Fin s m' p')"

definition fl_ratio :: "bool \<Rightarrow> int \<Rightarrow> int \<Rightarrow> int \<Rightarrow> double" where
  \<comment> \<open>the double nearest to \<open>\<plusminus> (n / d) \<cdot> 2\<^sup>e\<close>, for \<open>0 < n\<close> and \<open>0 < d\<close>: the quotient is taken
      to at least 55 binary digits, and one more digit records a remainder\<close>
  "fl_ratio s n d e =
     (let k = nat (max 0 (nbits d + 55 - nbits n)); q = (n * 2 ^ k) div d;
          sticky = (if (n * 2 ^ k) mod d = 0 then 0 else 1)
      in fl s (2 * q + sticky) (e - int k - 1))"

definition signed :: "bool \<Rightarrow> int \<Rightarrow> int" where
  "signed s m = (if s then - m else m)"

definition zero :: "bool \<Rightarrow> double" where
  "zero s = Fin s 0 (- 1074)"

fun fadd :: "double \<Rightarrow> double \<Rightarrow> double" where
  "fadd NaN y = NaN"
| "fadd x NaN = NaN"
| "fadd (Inf s) (Inf s') = (if s = s' then Inf s else NaN)"
| "fadd (Inf s) (Fin s' m' e') = Inf s"
| "fadd (Fin s m e) (Inf s') = Inf s'"
| "fadd (Fin s m e) (Fin s' m' e') =
     (let l = min e e'; a = signed s m * 2 ^ nat (e - l) + signed s' m' * 2 ^ nat (e' - l)
      in if a = 0 then zero (s \<and> s') else fl (a < 0) \<bar>a\<bar> l)"

fun fneg :: "double \<Rightarrow> double" where
  "fneg NaN = NaN"
| "fneg (Inf s) = Inf (\<not> s)"
| "fneg (Fin s m e) = Fin (\<not> s) m e"

definition fsub :: "double \<Rightarrow> double \<Rightarrow> double" where
  "fsub x y = fadd x (fneg y)"

fun fmul :: "double \<Rightarrow> double \<Rightarrow> double" where
  "fmul NaN y = NaN"
| "fmul x NaN = NaN"
| "fmul (Inf s) (Inf s') = Inf (s \<noteq> s')"
| "fmul (Inf s) (Fin s' m' e') = (if m' = 0 then NaN else Inf (s \<noteq> s'))"
| "fmul (Fin s m e) (Inf s') = (if m = 0 then NaN else Inf (s \<noteq> s'))"
| "fmul (Fin s m e) (Fin s' m' e') =
     (if m = 0 \<or> m' = 0 then zero (s \<noteq> s') else fl (s \<noteq> s') (m * m') (e + e'))"

fun fdiv :: "double \<Rightarrow> double \<Rightarrow> double" where
  "fdiv NaN y = NaN"
| "fdiv x NaN = NaN"
| "fdiv (Inf s) (Inf s') = NaN"
| "fdiv (Inf s) (Fin s' m' e') = Inf (s \<noteq> s')"
| "fdiv (Fin s m e) (Inf s') = zero (s \<noteq> s')"
| "fdiv (Fin s m e) (Fin s' m' e') =
     (if m' = 0 then (if m = 0 then NaN else Inf (s \<noteq> s'))
      else if m = 0 then zero (s \<noteq> s')
      else fl_ratio (s \<noteq> s') m m' (e - e'))"

fun fle :: "double \<Rightarrow> double \<Rightarrow> bool" where
  "fle NaN y = False"
| "fle x NaN = False"
| "fle (Inf s) (Inf s') = (if s then True else if s' then False else True)"
| "fle (Inf s) (Fin s' m' e') = s"
| "fle (Fin s m e) (Inf s') = (if s' then False else True)"
| "fle (Fin s m e) (Fin s' m' e') =
     (let l = min e e' in signed s m * 2 ^ nat (e - l) \<le> signed s' m' * 2 ^ nat (e' - l))"

definition lit :: "int \<Rightarrow> int \<Rightarrow> double" where
  \<comment> \<open>the value of the decimal literal \<open>m \<cdot> 10\<^sup>k\<close>\<close>
  "lit m k = (if m = 0 then zero False
              else if 0 \<le> k then fl (m < 0) (\<bar>m\<bar> * 10 ^ nat k) 0
              else fl_ratio (m < 0) \<bar>m\<bar> (10 ^ nat (- k)) 0)"

subsection \<open>\<^verbatim>\<open>Number.prototype.toFixed\<close>\<close>

definition ge_1e21 :: "int \<Rightarrow> int \<Rightarrow> bool" where
  \<comment> \<open>\<open>10\<^sup>2\<^sup>1 \<le> m \<cdot> 2\<^sup>e\<close>\<close>
  "ge_1e21 m e = (if 0 \<le> e then 10 ^ 21 \<le> m * 2 ^ nat e else 10 ^ 21 * 2 ^ nat (- e) \<le> m)"

definition round_scaled :: "nat \<Rightarrow> int \<Rightarrow> int \<Rightarrow> int" where
  \<comment> \<open>the integer \<open>n\<close> with \<open>n / 10\<^sup>d\<close> nearest to \<open>m \<cdot> 2\<^sup>e\<close>, the larger of two\<close>
  "round_scaled d m e =
     (if 0 \<le> e then m * 2 ^ nat e * 10 ^ d
      else (2 * m * 10 ^ d + 2 ^ nat (- e)) div (2 * 2 ^ nat (- e)))"

definition digit_char :: "int \<Rightarrow> char" where
  "digit_char d = ''0123456789'' ! nat d"

function dec :: "int \<Rightarrow> string" where
  \<comment> \<open>the decimal digits of \<open>n \<ge> 0\<close>\<close>
  "dec n = (if n < 10 then [digit_char n] else dec (n div 10) @ [digit_char (n mod 10)])"
  by pat_completeness auto
termination
  by (relation "measure nat") auto

declare dec.simps [simp del]

definition fixed_digits :: "nat \<Rightarrow> int \<Rightarrow> string" where
  \<comment> \<open>the digits of \<open>n\<close>, padded with zeros to \<open>d + 1\<close> digits, a point before the last \<open>d\<close>\<close>
  "fixed_digits d n =
     (let ds = dec n; ds' = replicate (d + 1 - length ds) (CHR ''0'') @ ds
      in if d = 0 then ds'
         else take (length ds' - d) ds' @ ''.'' @ drop (length ds' - d) ds')"

text \<open>
  From \<open>10\<^sup>2\<^sup>1\<close> on, \<^verbatim>\<open>toFixed\<close> returns \<^verbatim>\<open>String(x)\<close>: the shortest decimal \<open>c \<cdot> 10\<^sup>j\<close>
  that reads back as \<open>x\<close>, the nearest to \<open>x\<close> of the two candidates of that length, in
  exponent form. Seventeen digits are always enough.
\<close>

function shortest :: "int \<Rightarrow> nat \<Rightarrow> nat \<Rightarrow> int \<times> nat" where
  "shortest X nd k =
     (let j = nd - k; lo = X div 10 ^ j; hi = lo + 1;
          okl = (fl False (lo * 10 ^ j) 0 = fl False X 0);
          okh = (fl False (hi * 10 ^ j) 0 = fl False X 0)
      in if okl \<and> okh then
           (if X - lo * 10 ^ j < hi * 10 ^ j - X then (lo, j)
            else if hi * 10 ^ j - X < X - lo * 10 ^ j then (hi, j)
            else if even lo then (lo, j) else (hi, j))
         else if okl then (lo, j)
         else if okh then (hi, j)
         else if 17 \<le> k then (lo, j)
         else shortest X nd (k + 1))"
  by pat_completeness auto
termination
  by (relation "measure (\<lambda>(X, nd, k). 17 - k)") auto

declare shortest.simps [simp del]

fun strip_zeros :: "string \<Rightarrow> string" where
  \<comment> \<open>without the zeros at the end, the first digit kept\<close>
  "strip_zeros ds = (if 1 < length ds \<and> last ds = CHR ''0'' then strip_zeros (butlast ds) else ds)"

declare strip_zeros.simps [simp del]

definition toString_big :: "int \<Rightarrow> int \<Rightarrow> string" where
  "toString_big m e =
     (let X = (if 0 \<le> e then m * 2 ^ nat e else m div 2 ^ nat (- e));
          (c, j) = shortest X (length (dec X)) 1;
          n = length (dec c) + j;
          ds = strip_zeros (dec c)
      in hd ds # (if tl ds = [] then [] else ''.'' @ tl ds) @ ''e+'' @ dec (int n - 1))"

fun toFixed :: "nat \<Rightarrow> double \<Rightarrow> string" where
  "toFixed d NaN = ''NaN''"
| "toFixed d (Inf s) = (if s then ''-Infinity'' else ''Infinity'')"
| "toFixed d (Fin s m e) =
     (if s \<and> m \<noteq> 0 then ''-'' else []) @
     (if ge_1e21 m e then toString_big m e else fixed_digits d (round_scaled d m e))"

text \<open>
  \<^verbatim>\<open>Number(x.toFixed(d))\<close>: the string of \<^verbatim>\<open>toFixed\<close> read back. \<^verbatim>\<open>NaN\<close> and the
  infinities come back as themselves, as does a number from \<open>10\<^sup>2\<^sup>1\<close> on; a smaller one comes
  back as the double nearest to \<open>n / 10\<^sup>d\<close>. Zero is printed without a sign; a negative number
  that rounds to \<open>n = 0\<close> is printed \<^verbatim>\<open>-0.00\<close>\<open>\<dots>\<close> and comes back as \<open>-0\<close>.
\<close>

fun Number_toFixed :: "nat \<Rightarrow> double \<Rightarrow> double" where
  "Number_toFixed d NaN = NaN"
| "Number_toFixed d (Inf s) = Inf s"
| "Number_toFixed d (Fin s m e) =
     (if m = 0 then zero False
      else if ge_1e21 m e then Fin s m e
      else let n = round_scaled d m e
           in if n = 0 then zero s else fl_ratio s n (10 ^ d) 0)"

definition js :: "double runtime" where
  "js = \<lparr> r_add = fadd, r_sub = fsub, r_mul = fmul, r_div = fdiv, r_le = fle, r_lit = lit,
          r_nan = NaN, r_Number_toFixed = Number_toFixed, r_toFixed = toFixed \<rparr>"

section \<open>Evaluating the double-precision runtime\<close>

text \<open>
  The equations of the arithmetic are unfolded only where a concrete number is computed. The
  bit length is then taken sixty-four, sixteen and four digits at a time.
\<close>

lemma js_sel [simp]:
  "r_add js = fadd" "r_sub js = fsub" "r_mul js = fmul" "r_div js = fdiv" "r_le js = fle"
  "r_lit js = lit" "r_nan js = NaN" "r_Number_toFixed js = Number_toFixed" "r_toFixed js = toFixed"
  by (simp_all add: js_def)

lemma nbits_pos: "0 < m \<Longrightarrow> nbits m = 1 + nbits (m div 2)"
  by (subst nbits.simps) simp

lemma nbits_shift: "2 ^ k \<le> m \<Longrightarrow> nbits m = int k + nbits (m div 2 ^ k)"
proof (induction k arbitrary: m)
  case 0
  then show ?case by simp
next
  case (Suc k)
  have "(0::int) < 2 ^ Suc k" by simp
  then have pos: "0 < m" using Suc.prems by linarith
  have "2 ^ k \<le> m div 2" using Suc.prems by simp
  then have "nbits (m div 2) = int k + nbits (m div 2 div 2 ^ k)" by (rule Suc.IH)
  also have "m div 2 div 2 ^ k = m div 2 ^ Suc k"
    by (simp add: zdiv_zmult2_eq)
  finally show ?case using pos by (simp add: nbits_pos)
qed

lemma nbits_fast:
  "nbits m =
     (if 18446744073709551616 \<le> m then 64 + nbits (m div 18446744073709551616)
      else if 65536 \<le> m then 16 + nbits (m div 65536)
      else if 16 \<le> m then 4 + nbits (m div 16)
      else if m \<le> 0 then 0
      else 1 + nbits (m div 2))"
  using nbits_shift [of 64 m] nbits_shift [of 16 m] nbits_shift [of 4 m] nbits.simps [of m]
  by simp

declare fadd.simps [simp del] fneg.simps [simp del] fmul.simps [simp del] fdiv.simps [simp del]
  fle.simps [simp del] toFixed.simps [simp del] Number_toFixed.simps [simp del]

lemmas js_eval = fadd.simps fneg.simps fmul.simps fdiv.simps fle.simps Number_toFixed.simps
  fl_def fl_ratio_def signed_def zero_def fsub_def Let_def nbits_fast ge_1e21_def round_scaled_def

lemma run_numeral:
  "run R lim dt (numeral k) t =
     (if r_le R t lim then run R lim dt (pred_numeral k) (r_add R t dt) else None)"
  by (simp add: numeral_eq_Suc)

lemma lit_vals:
  "lit 0 0 = Fin False 0 (- 1074)"
  "lit 1 0 = Fin False 4503599627370496 (- 52)"
  "lit 2 0 = Fin False 4503599627370496 (- 51)"
  "lit 3 0 = Fin False 6755399441055744 (- 51)"
  "lit 4 0 = Fin False 4503599627370496 (- 50)"
  "lit 5 0 = Fin False 5629499534213120 (- 50)"
  "lit 6 0 = Fin False 6755399441055744 (- 50)"
  "lit 7 0 = Fin False 7881299347898368 (- 50)"
  "lit 8 0 = Fin False 4503599627370496 (- 49)"
  "lit 10 0 = Fin False 5629499534213120 (- 49)"
  "lit 25 0 = Fin False 7036874417766400 (- 48)"
  "lit 150 0 = Fin False 5277655813324800 (- 45)"
  "lit 1000 0 = Fin False 8796093022208000 (- 43)"
  "lit 1 (- 1) = Fin False 7205759403792794 (- 56)"
  "lit 5 (- 1) = Fin False 4503599627370496 (- 53)"
  "lit 1 (- 3) = Fin False 4611686018427388 (- 62)"
  "lit 1 (- 12) = Fin False 4951760157141521 (- 92)"
  "lit (- 1) (- 1) = Fin True 7205759403792794 (- 56)"
  "lit 15 (- 1) = Fin False 6755399441055744 (- 52)"
  by (simp_all add: lit_def js_eval cong: let_weak_cong)

section \<open>Arrays and counted loops\<close>

lemma length_aset: "length (aset xs i v) = max (length xs) (i + 1)"
  by (simp add: aset_def)

lemma length_aset_in: "i < length xs \<Longrightarrow> length (aset xs i v) = length xs"
  by (simp add: aset_def)

lemma aset_in: "i < length xs \<Longrightarrow> aset xs i v = xs[i := Some v]"
  by (simp add: aset_def)

lemma splice_all: "splice xs 0 (length xs) items = items"
  by (simp add: splice_def)

lemma for_loop_done: "n \<le> i \<Longrightarrow> for_loop i n body s = s"
  by (simp add: for_loop.simps)

lemma for_loop_step: "i < n \<Longrightarrow> for_loop i n body s = for_loop (i + 1) n body (body i s)"
  by (subst for_loop.simps) simp

lemma for_loop_inv:
  assumes "P i s" and "\<And>j t. i \<le> j \<Longrightarrow> j < n \<Longrightarrow> P j t \<Longrightarrow> P (j + 1) (body j t)" and "i \<le> n"
  shows "P n (for_loop i n body s)"
  using assms
proof (induction i n body s rule: for_loop.induct)
  case (1 i n body s)
  show ?case
  proof (cases "i < n")
    case True
    have "P n (for_loop (i + 1) n body (body i s))"
    proof (rule "1.IH")
      show "i < n" by (rule True)
      show "P (i + 1) (body i s)" using "1.prems" True by simp
      show "\<And>j t. i + 1 \<le> j \<Longrightarrow> j < n \<Longrightarrow> P j t \<Longrightarrow> P (j + 1) (body j t)"
        using "1.prems"(2) by simp
      show "i + 1 \<le> n" using True by simp
    qed
    then show ?thesis using True by (simp add: for_loop_step)
  next
    case False
    with "1.prems" have "i = n" by simp
    with "1.prems" show ?thesis by (simp add: for_loop_done)
  qed
qed

lemma for_loop_fill:
  assumes "length vs = n" and "i \<le> n"
  shows "for_loop i n (\<lambda>j vs. aset vs j (f j)) vs = take i vs @ map (\<lambda>j. Some (f j)) [i..<n]"
proof -
  let ?P = "\<lambda>k s. s = take i vs @ map (\<lambda>j. Some (f j)) [i..<k] @ drop k vs"
  have "?P n (for_loop i n (\<lambda>j vs. aset vs j (f j)) vs)"
  proof (rule for_loop_inv [where P = ?P])
    show "?P i vs" by simp
    show "i \<le> n" by (rule assms)
    fix j t assume j: "i \<le> j" "j < n" and t: "?P j t"
    have len: "length t = n" using t assms j by simp
    have "aset t j (f j) = t[j := Some (f j)]" using len j by (simp add: aset_in)
    also have "\<dots> = take i vs @ map (\<lambda>j. Some (f j)) [i..<j] @ (drop j vs)[0 := Some (f j)]"
      using t j assms by (simp add: list_update_append)
    also have "(drop j vs)[0 := Some (f j)] = Some (f j) # drop (j + 1) vs"
      using j assms by (cases "drop j vs") (auto simp: drop_Suc dest: arg_cong [where f = tl] simp: drop_tl)
    finally show "?P (j + 1) (aset t j (f j))" using j by simp
  qed
  then show ?thesis using assms by simp
qed

lemma for_loop_fill_new:
  "for_loop 0 n (\<lambda>j vs. aset vs j (f j)) (new_Array n) = map (\<lambda>j. Some (f j)) [0..<n]"
  by (simp add: for_loop_fill new_Array_def)

lemma for_loop_aset_length:
  assumes "length s = n" and "i \<le> n"
  shows "length (for_loop i n (\<lambda>k xs. aset xs k (g k xs)) s) = n"
  by (rule for_loop_inv [where P = "\<lambda>k xs. length xs = n"])
     (use assms in \<open>simp_all add: length_aset_in\<close>)

section \<open>The differentiators, index by index\<close>

lemma computeVFromX_map:
  "computeVFromX R xs dt =
     map (\<lambda>i. Some
            (if i = 0 then r_div R (r_sub R (elt R xs 1) (elt R xs 0)) dt
             else if int i = int (length xs) - 1
               then r_div R (r_sub R (elt R xs (int (length xs) - 1)) (elt R xs (int (length xs) - 2))) dt
             else r_div R (r_sub R (elt R xs (int i + 1)) (elt R xs (int i - 1)))
                    (r_mul R (r_lit R 2 0) dt)))
       [0..<length xs]"
  unfolding computeVFromX_def Let_def by (rule for_loop_fill_new)

lemma computeAFromV_map:
  "computeAFromV R vs dt =
     map (\<lambda>i. Some
            (if i = 0 then r_div R (r_sub R (elt R vs 1) (elt R vs 0)) dt
             else if int i = int (length vs) - 1
               then r_div R (r_sub R (elt R vs (int (length vs) - 1)) (elt R vs (int (length vs) - 2))) dt
             else r_div R (r_sub R (elt R vs (int i + 1)) (elt R vs (int i - 1)))
                    (r_mul R (r_lit R 2 0) dt)))
       [0..<length vs]"
  unfolding computeAFromV_def Let_def by (rule for_loop_fill_new)

lemma computeAFromX_map:
  "computeAFromX R xs dt =
     map (\<lambda>i. Some
            (if i = 0
               then r_div R
                      (r_add R (r_sub R (elt R xs 2) (r_mul R (r_lit R 2 0) (elt R xs 1)))
                         (elt R xs 0))
                      (r_mul R dt dt)
             else if int i = int (length xs) - 1
               then r_div R
                      (r_add R
                         (r_sub R (elt R xs (int (length xs) - 1))
                            (r_mul R (r_lit R 2 0) (elt R xs (int (length xs) - 2))))
                         (elt R xs (int (length xs) - 3)))
                      (r_mul R dt dt)
             else r_div R
                    (r_add R
                       (r_sub R (elt R xs (int i + 1)) (r_mul R (r_lit R 2 0) (elt R xs (int i))))
                       (elt R xs (int i - 1)))
                    (r_mul R dt dt)))
       [0..<length xs]"
  unfolding computeAFromX_def Let_def by (rule for_loop_fill_new)

lemma length_computeVFromX: "length (computeVFromX R xs dt) = length xs"
  by (simp add: computeVFromX_map)

lemma length_computeAFromV: "length (computeAFromV R vs dt) = length vs"
  by (simp add: computeAFromV_map)

lemma length_computeAFromX: "length (computeAFromX R xs dt) = length xs"
  by (simp add: computeAFromX_map)

lemma computeVFromX_nth:
  "i < length xs \<Longrightarrow> computeVFromX R xs dt ! i =
     Some (if i = 0 then r_div R (r_sub R (elt R xs 1) (elt R xs 0)) dt
           else if int i = int (length xs) - 1
             then r_div R (r_sub R (elt R xs (int (length xs) - 1)) (elt R xs (int (length xs) - 2))) dt
           else r_div R (r_sub R (elt R xs (int i + 1)) (elt R xs (int i - 1)))
                  (r_mul R (r_lit R 2 0) dt))"
  by (simp add: computeVFromX_map)

lemma computeAFromV_nth:
  "i < length vs \<Longrightarrow> computeAFromV R vs dt ! i =
     Some (if i = 0 then r_div R (r_sub R (elt R vs 1) (elt R vs 0)) dt
           else if int i = int (length vs) - 1
             then r_div R (r_sub R (elt R vs (int (length vs) - 1)) (elt R vs (int (length vs) - 2))) dt
           else r_div R (r_sub R (elt R vs (int i + 1)) (elt R vs (int i - 1)))
                  (r_mul R (r_lit R 2 0) dt))"
  by (simp add: computeAFromV_map)

lemma computeAFromX_nth:
  "i < length xs \<Longrightarrow> computeAFromX R xs dt ! i =
     Some (if i = 0
             then r_div R
                    (r_add R (r_sub R (elt R xs 2) (r_mul R (r_lit R 2 0) (elt R xs 1)))
                       (elt R xs 0))
                    (r_mul R dt dt)
           else if int i = int (length xs) - 1
             then r_div R
                    (r_add R
                       (r_sub R (elt R xs (int (length xs) - 1))
                          (r_mul R (r_lit R 2 0) (elt R xs (int (length xs) - 2))))
                       (elt R xs (int (length xs) - 3)))
                    (r_mul R dt dt)
           else r_div R
                  (r_add R
                     (r_sub R (elt R xs (int i + 1)) (r_mul R (r_lit R 2 0) (elt R xs (int i))))
                     (elt R xs (int i - 1)))
                  (r_mul R dt dt))"
  by (simp add: computeAFromX_map)

lemma elt_num: "0 \<le> i \<Longrightarrow> i < int (length s) \<Longrightarrow> elt R (map Some s) i = s ! nat i"
  by (simp add: elt_def aget_def ToNumber_def)

lemma elt_num_minus: "k \<le> i \<Longrightarrow> i < length s + k \<Longrightarrow> elt R (map Some s) (int i - int k) = s ! (i - k)"
  using elt_num [of "int i - int k" s R] by (simp add: nat_diff_distrib')

lemma elt_num_plus: "i + k < length s \<Longrightarrow> elt R (map Some s) (int i + int k) = s ! (i + k)"
  using elt_num [of "int i + int k" s R] by (simp add: nat_add_distrib)

text \<open>
  \<^bold>\<open>C5.\<close> On a sequence \<open>s\<close> of \<open>N \<ge> 2\<close> numbers, \<^verbatim>\<open>computeVFromX\<close>
  (velocityFromPosition) and \<^verbatim>\<open>computeAFromV\<close> (accelerationFromVelocity) both return,
  at index 0, the forward difference \<open>(s[1] - s[0]) / dt\<close>; at index \<open>N - 1\<close>, the backward
  difference \<open>(s[N-1] - s[N-2]) / dt\<close>; at every interior index \<open>1 \<le> i \<le> N - 2\<close>, the
  central difference \<open>(s[i+1] - s[i-1]) / (2 * dt)\<close>. The output has \<open>N\<close> entries. This holds
  for every \<open>dt\<close>, zero included, whatever the division returns.
\<close>

theorem first_differences:
  assumes "2 \<le> length s"
  shows "(computeVFromX R (map Some s) dt ! 0 = Some (r_div R (r_sub R (s ! 1) (s ! 0)) dt)
      \<and> computeVFromX R (map Some s) dt ! (length s - 1) =
           Some (r_div R (r_sub R (s ! (length s - 1)) (s ! (length s - 2))) dt)
      \<and> (\<forall>i. 1 \<le> i \<and> i + 1 < length s \<longrightarrow>
           computeVFromX R (map Some s) dt ! i =
             Some (r_div R (r_sub R (s ! (i + 1)) (s ! (i - 1))) (r_mul R (r_lit R 2 0) dt)))
      \<and> length (computeVFromX R (map Some s) dt) = length s)
    \<and> (computeAFromV R (map Some s) dt ! 0 = Some (r_div R (r_sub R (s ! 1) (s ! 0)) dt)
      \<and> computeAFromV R (map Some s) dt ! (length s - 1) =
           Some (r_div R (r_sub R (s ! (length s - 1)) (s ! (length s - 2))) dt)
      \<and> (\<forall>i. 1 \<le> i \<and> i + 1 < length s \<longrightarrow>
           computeAFromV R (map Some s) dt ! i =
             Some (r_div R (r_sub R (s ! (i + 1)) (s ! (i - 1))) (r_mul R (r_lit R 2 0) dt)))
      \<and> length (computeAFromV R (map Some s) dt) = length s)"
proof -
  let ?xs = "map Some s" and ?n = "length s"
  have e0: "elt R ?xs 0 = s ! 0" and e1: "elt R ?xs 1 = s ! 1"
    using assms by (auto simp: elt_def aget_def ToNumber_def)
  have l1: "elt R ?xs (int ?n - 1) = s ! (?n - 1)"
    using assms elt_num_minus [of 1 ?n s R] by simp
  have l2: "elt R ?xs (int ?n - 2) = s ! (?n - 2)"
    using assms elt_num_minus [of 2 ?n s R] by simp
  have mid: "elt R ?xs (int i + 1) = s ! (i + 1) \<and> elt R ?xs (int i - 1) = s ! (i - 1)"
    if "1 \<le> i" "i + 1 < ?n" for i
    using that elt_num_plus [of i 1 s R] elt_num_minus [of 1 i s R] by simp
  have last_ne: "?n - 1 \<noteq> 0" and last_eq: "int (?n - 1) = int ?n - 1"
    using assms by simp_all
  have not_last: "int i \<noteq> int ?n - 1" "i \<noteq> 0" "i < ?n" if "1 \<le> i" "i + 1 < ?n" for i
    using that by simp_all
  have first: "0 < ?n" and lst: "?n - 1 < ?n" using assms by auto
  have v0: "computeVFromX R ?xs dt ! 0 = Some (r_div R (r_sub R (s ! 1) (s ! 0)) dt)"
    using first by (simp add: computeVFromX_nth e0 e1 del: One_nat_def)
  have a0: "computeAFromV R ?xs dt ! 0 = Some (r_div R (r_sub R (s ! 1) (s ! 0)) dt)"
    using first by (simp add: computeAFromV_nth e0 e1 del: One_nat_def)
  have vl: "computeVFromX R ?xs dt ! (?n - 1) =
              Some (r_div R (r_sub R (s ! (?n - 1)) (s ! (?n - 2))) dt)"
    using lst last_ne by (simp add: computeVFromX_nth last_eq l1 l2 del: One_nat_def)
  have al: "computeAFromV R ?xs dt ! (?n - 1) =
              Some (r_div R (r_sub R (s ! (?n - 1)) (s ! (?n - 2))) dt)"
    using lst last_ne by (simp add: computeAFromV_nth last_eq l1 l2 del: One_nat_def)
  have vm: "computeVFromX R ?xs dt ! i =
              Some (r_div R (r_sub R (s ! (i + 1)) (s ! (i - 1))) (r_mul R (r_lit R 2 0) dt))"
    if "1 \<le> i" "i + 1 < ?n" for i
    using not_last [OF that] mid [OF that] by (simp add: computeVFromX_nth del: One_nat_def)
  have am: "computeAFromV R ?xs dt ! i =
              Some (r_div R (r_sub R (s ! (i + 1)) (s ! (i - 1))) (r_mul R (r_lit R 2 0) dt))"
    if "1 \<le> i" "i + 1 < ?n" for i
    using not_last [OF that] mid [OF that] by (simp add: computeAFromV_nth del: One_nat_def)
  show ?thesis
    using v0 a0 vl al vm am by (simp add: length_computeVFromX length_computeAFromV)
qed

theorem first_differences_witness:
  "2 \<le> length [lit 1 0, lit 2 0, lit 4 0, lit 8 0]
   \<and> computeVFromX js (map Some [lit 1 0, lit 2 0, lit 4 0, lit 8 0]) (lit 5 (- 1)) ! 0
       = Some (lit 2 0)
   \<and> computeVFromX js (map Some [lit 1 0, lit 2 0, lit 4 0, lit 8 0]) (lit 5 (- 1)) ! 3
       = Some (lit 8 0)
   \<and> computeVFromX js (map Some [lit 1 0, lit 2 0, lit 4 0, lit 8 0]) (lit 5 (- 1)) ! 2
       = Some (lit 6 0)
   \<and> computeAFromV js (map Some [lit 1 0, lit 2 0, lit 4 0, lit 8 0]) (lit 5 (- 1)) ! 1
       = Some (lit 3 0)"
proof -
  have h: "2 \<le> length [lit 1 0, lit 2 0, lit 4 0, lit 8 0]" by simp
  note t = first_differences [OF h, of js "lit 5 (- 1)"]
  have "computeVFromX js (map Some [lit 1 0, lit 2 0, lit 4 0, lit 8 0]) (lit 5 (- 1)) ! 2
          = Some (fdiv (fsub (lit 8 0) (lit 2 0)) (fmul (lit 2 0) (lit 5 (- 1))))"
    using t [THEN conjunct1, THEN conjunct2, THEN conjunct2, THEN conjunct1, rule_format, of 2]
    by simp
  moreover
  have "computeAFromV js (map Some [lit 1 0, lit 2 0, lit 4 0, lit 8 0]) (lit 5 (- 1)) ! 1
          = Some (fdiv (fsub (lit 4 0) (lit 1 0)) (fmul (lit 2 0) (lit 5 (- 1))))"
    using t [THEN conjunct2, THEN conjunct2, THEN conjunct2, THEN conjunct1, rule_format, of 1]
    by simp
  moreover
  have "computeVFromX js (map Some [lit 1 0, lit 2 0, lit 4 0, lit 8 0]) (lit 5 (- 1)) ! 0
          = Some (fdiv (fsub (lit 2 0) (lit 1 0)) (lit 5 (- 1)))"
    using t [THEN conjunct1, THEN conjunct1] by simp
  moreover
  have "computeVFromX js (map Some [lit 1 0, lit 2 0, lit 4 0, lit 8 0]) (lit 5 (- 1)) ! 3
          = Some (fdiv (fsub (lit 8 0) (lit 4 0)) (lit 5 (- 1)))"
    using t [THEN conjunct1, THEN conjunct2, THEN conjunct1] by (simp add: eval_nat_numeral)
  moreover
  have "fdiv (fsub (lit 8 0) (lit 2 0)) (fmul (lit 2 0) (lit 5 (- 1))) = lit 6 0"
       "fdiv (fsub (lit 4 0) (lit 1 0)) (fmul (lit 2 0) (lit 5 (- 1))) = lit 3 0"
       "fdiv (fsub (lit 2 0) (lit 1 0)) (lit 5 (- 1)) = lit 2 0"
       "fdiv (fsub (lit 8 0) (lit 4 0)) (lit 5 (- 1)) = lit 8 0"
    by (simp_all add: lit_vals js_eval cong: let_weak_cong)
  ultimately show ?thesis by simp
qed
text \<open>
  \<^bold>\<open>C4.\<close> On a sequence \<open>s\<close> of \<open>N \<ge> 3\<close> numbers, \<^verbatim>\<open>computeAFromX\<close>
  (accelerationFromPosition) returns the second difference
  \<open>(s[i+1] - 2 * s[i] + s[i-1]) / (dt * dt)\<close> at every interior index \<open>1 \<le> i \<le> N - 2\<close>; index 0
  is computed from the samples 0, 1, 2 and index \<open>N - 1\<close> from the samples \<open>N-3\<close>, \<open>N-2\<close>,
  \<open>N-1\<close>; so the first two entries are equal and the last two entries are equal. The output
  has \<open>N\<close> entries.
\<close>

theorem second_differences:
  assumes "3 \<le> length s"
  shows "(\<forall>i. 1 \<le> i \<and> i + 2 \<le> length s \<longrightarrow>
            computeAFromX R (map Some s) dt ! i =
              Some (r_div R
                      (r_add R (r_sub R (s ! (i + 1)) (r_mul R (r_lit R 2 0) (s ! i))) (s ! (i - 1)))
                      (r_mul R dt dt)))
       \<and> computeAFromX R (map Some s) dt ! 0 =
            Some (r_div R (r_add R (r_sub R (s ! 2) (r_mul R (r_lit R 2 0) (s ! 1))) (s ! 0))
                    (r_mul R dt dt))
       \<and> computeAFromX R (map Some s) dt ! (length s - 1) =
            Some (r_div R
                    (r_add R
                       (r_sub R (s ! (length s - 1)) (r_mul R (r_lit R 2 0) (s ! (length s - 2))))
                       (s ! (length s - 3)))
                    (r_mul R dt dt))
       \<and> computeAFromX R (map Some s) dt ! 0 = computeAFromX R (map Some s) dt ! 1
       \<and> computeAFromX R (map Some s) dt ! (length s - 2) =
            computeAFromX R (map Some s) dt ! (length s - 1)
       \<and> length (computeAFromX R (map Some s) dt) = length s"
proof -
  let ?xs = "map Some s" and ?n = "length s"
  let ?A = "computeAFromX R ?xs dt"
  have e0: "elt R ?xs 0 = s ! 0" and e1: "elt R ?xs 1 = s ! 1" and e2: "elt R ?xs 2 = s ! 2"
    using assms by (auto simp: elt_def aget_def ToNumber_def)
  have l1: "elt R ?xs (int ?n - 1) = s ! (?n - 1)"
    using assms elt_num_minus [of 1 ?n s R] by simp
  have l2: "elt R ?xs (int ?n - 2) = s ! (?n - 2)"
    using assms elt_num_minus [of 2 ?n s R] by simp
  have l3: "elt R ?xs (int ?n - 3) = s ! (?n - 3)"
    using assms elt_num_minus [of 3 ?n s R] by simp
  have mid: "elt R ?xs (int i + 1) = s ! (i + 1) \<and> elt R ?xs (int i) = s ! i
             \<and> elt R ?xs (int i - 1) = s ! (i - 1)"
    if "1 \<le> i" "i + 2 \<le> ?n" for i
    using that elt_num_plus [of i 1 s R] elt_num_minus [of 1 i s R] elt_num_plus [of i 0 s R]
    by simp
  have last_ne: "?n - 1 \<noteq> 0" and last_eq: "int (?n - 1) = int ?n - 1"
    using assms by simp_all
  have not_last: "int i \<noteq> int ?n - 1" "i \<noteq> 0" "i < ?n" if "1 \<le> i" "i + 2 \<le> ?n" for i
    using that by simp_all
  have first: "0 < ?n" and lst: "?n - 1 < ?n" using assms by auto
  have a0: "?A ! 0 = Some (r_div R (r_add R (r_sub R (s ! 2) (r_mul R (r_lit R 2 0) (s ! 1))) (s ! 0))
                             (r_mul R dt dt))"
    using first by (simp add: computeAFromX_nth e0 e1 e2 del: One_nat_def)
  have al: "?A ! (?n - 1) =
              Some (r_div R
                      (r_add R (r_sub R (s ! (?n - 1)) (r_mul R (r_lit R 2 0) (s ! (?n - 2))))
                         (s ! (?n - 3)))
                      (r_mul R dt dt))"
    using lst last_ne by (simp add: computeAFromX_nth last_eq l1 l2 l3 del: One_nat_def)
  have am: "?A ! i =
              Some (r_div R
                      (r_add R (r_sub R (s ! (i + 1)) (r_mul R (r_lit R 2 0) (s ! i))) (s ! (i - 1)))
                      (r_mul R dt dt))"
    if "1 \<le> i" "i + 2 \<le> ?n" for i
    using not_last [OF that] mid [OF that] by (simp add: computeAFromX_nth del: One_nat_def)
  have "?A ! 1 = ?A ! 0"
    using am [of 1] assms a0 by (simp add: numeral_2_eq_2)
  moreover have "?A ! (?n - 2) = ?A ! (?n - 1)"
  proof -
    have "1 \<le> ?n - 2" "?n - 2 + 2 \<le> ?n" "?n - 2 + 1 = ?n - 1" "?n - 2 - 1 = ?n - 3"
      using assms by simp_all
    then show ?thesis using am [of "?n - 2"] al by simp
  qed
  ultimately show ?thesis
    using a0 al am by (simp add: length_computeAFromX)
qed

theorem second_differences_witness:
  "3 \<le> length [lit 1 0, lit 2 0, lit 4 0, lit 8 0]
   \<and> computeAFromX js (map Some [lit 1 0, lit 2 0, lit 4 0, lit 8 0]) (lit 5 (- 1)) ! 0
       = Some (lit 4 0)
   \<and> computeAFromX js (map Some [lit 1 0, lit 2 0, lit 4 0, lit 8 0]) (lit 5 (- 1)) ! 3
       = Some (lit 8 0)
   \<and> computeAFromX js (map Some [lit 1 0, lit 2 0, lit 4 0, lit 8 0]) (lit 5 (- 1)) ! 0
       = computeAFromX js (map Some [lit 1 0, lit 2 0, lit 4 0, lit 8 0]) (lit 5 (- 1)) ! 1"
proof -
  have h: "3 \<le> length [lit 1 0, lit 2 0, lit 4 0, lit 8 0]" by simp
  note t = second_differences [OF h, of js "lit 5 (- 1)"]
  have "computeAFromX js (map Some [lit 1 0, lit 2 0, lit 4 0, lit 8 0]) (lit 5 (- 1)) ! 0
          = Some (fdiv (fadd (fsub (lit 4 0) (fmul (lit 2 0) (lit 2 0))) (lit 1 0))
                    (fmul (lit 5 (- 1)) (lit 5 (- 1))))"
    using t [THEN conjunct2, THEN conjunct1] by simp
  moreover
  have "computeAFromX js (map Some [lit 1 0, lit 2 0, lit 4 0, lit 8 0]) (lit 5 (- 1)) ! 3
          = Some (fdiv (fadd (fsub (lit 8 0) (fmul (lit 2 0) (lit 4 0))) (lit 2 0))
                    (fmul (lit 5 (- 1)) (lit 5 (- 1))))"
    using t [THEN conjunct2, THEN conjunct2, THEN conjunct1] by (simp add: eval_nat_numeral)
  moreover
  have "fdiv (fadd (fsub (lit 4 0) (fmul (lit 2 0) (lit 2 0))) (lit 1 0))
          (fmul (lit 5 (- 1)) (lit 5 (- 1))) = lit 4 0"
       "fdiv (fadd (fsub (lit 8 0) (fmul (lit 2 0) (lit 4 0))) (lit 2 0))
          (fmul (lit 5 (- 1)) (lit 5 (- 1))) = lit 8 0"
    by (simp_all add: lit_vals js_eval cong: let_weak_cong)
  ultimately show ?thesis
    using t [THEN conjunct2, THEN conjunct2, THEN conjunct2, THEN conjunct1] by simp
qed
section \<open>The integrators\<close>

lemma integrateVToX_Nil: "integrateVToX R [] x0 dt = [Some x0]"
  by (simp add: integrateVToX_def new_Array_def aset_def for_loop_done)

lemma integrateAToV_Nil: "integrateAToV R [] v0 dt = [Some v0]"
  by (simp add: integrateAToV_def new_Array_def aset_def for_loop_done)

lemma length_integrateVToX: "vs \<noteq> [] \<Longrightarrow> length (integrateVToX R vs x0 dt) = length vs"
  unfolding integrateVToX_def Let_def
  by (rule for_loop_aset_length) (auto simp: length_aset_in new_Array_def Suc_le_eq)

lemma length_integrateAToV: "as \<noteq> [] \<Longrightarrow> length (integrateAToV R as v0 dt) = length as"
  unfolding integrateAToV_def Let_def
  by (rule for_loop_aset_length) (auto simp: length_aset_in new_Array_def Suc_le_eq)

text \<open>
  \<^bold>\<open>C10.\<close> On the empty array, \<^verbatim>\<open>integrateVToX\<close> (positionFromVelocity) returns the
  one-element array \<open>[x0]\<close> and \<^verbatim>\<open>integrateAToV\<close> (velocityFromAcceleration) returns
  \<open>[v0]\<close>: the write \<^verbatim>\<open>xs[0] = x0\<close> extends the empty \<^verbatim>\<open>new Array(0)\<close>. On every non-empty
  array of length \<open>N\<close>, both return an array of length \<open>N\<close>.
\<close>

theorem integrators_length:
  "integrateVToX R [] x0 dt = [Some x0]
   \<and> integrateAToV R [] v0 dt = [Some v0]
   \<and> (\<forall>vs. vs \<noteq> [] \<longrightarrow> length (integrateVToX R vs x0 dt) = length vs)
   \<and> (\<forall>as. as \<noteq> [] \<longrightarrow> length (integrateAToV R as v0 dt) = length as)"
  by (simp add: integrateVToX_Nil integrateAToV_Nil length_integrateVToX length_integrateAToV)

theorem integrators_length_witness:
  "integrateVToX js [] (lit 7 0) (lit 1 (- 1)) = [Some (lit 7 0)]
   \<and> [Some (lit 1 0), None, Some (lit 3 0)] \<noteq> []
   \<and> length (integrateVToX js [Some (lit 1 0), None, Some (lit 3 0)] (lit 7 0) (lit 1 (- 1))) = 3
   \<and> length (integrateAToV js [Some (lit 1 0), None, Some (lit 3 0)] (lit 7 0) (lit 1 (- 1))) = 3"
  using integrators_length [of js "lit 7 0" "lit 1 (- 1)" "lit 7 0"]
  by simp
section \<open>A drag edit\<close>

text \<open>
  \<^bold>\<open>C9.\<close> Whatever the edited series (any string, one of the three names or not), the index
  (in range or beyond the end) and the new value, \<^verbatim>\<open>applyDragSync\<close> leaves the array
  \<^verbatim>\<open>times\<close> and the fields \<^verbatim>\<open>dt\<close>, \<^verbatim>\<open>x0\<close>, \<^verbatim>\<open>v0\<close> of the state as they were. Index 0
  is treated like every other index.
\<close>

theorem edit_frame:
  "times_f (applyDragSync R chartType index newValue state) = times_f state
   \<and> dt_f (applyDragSync R chartType index newValue state) = dt_f state
   \<and> x0_f (applyDragSync R chartType index newValue state) = x0_f state
   \<and> v0_f (applyDragSync R chartType index newValue state) = v0_f state"
  by (simp add: applyDragSync_def Let_def)

theorem edit_frame_witness:
  "times_f (applyDragSync js ''velocity'' 0 (lit 3 0)
      \<lparr> times_f = [Some (lit 0 0), Some (lit 1 0)], xs_f = [Some (lit 0 0), Some (lit 1 0)],
        vs_f = [Some (lit 1 0), Some (lit 1 0)], as_f = [Some (lit 0 0), Some (lit 0 0)],
        x0_f = lit 0 0, v0_f = lit 1 0, dt_f = lit 1 0 \<rparr>) = [Some (lit 0 0), Some (lit 1 0)]
   \<and> x0_f (applyDragSync js ''velocity'' 0 (lit 3 0)
      \<lparr> times_f = [Some (lit 0 0), Some (lit 1 0)], xs_f = [Some (lit 0 0), Some (lit 1 0)],
        vs_f = [Some (lit 1 0), Some (lit 1 0)], as_f = [Some (lit 0 0), Some (lit 0 0)],
        x0_f = lit 0 0, v0_f = lit 1 0, dt_f = lit 1 0 \<rparr>) = lit 0 0
   \<and> v0_f (applyDragSync js ''velocity'' 0 (lit 3 0)
      \<lparr> times_f = [Some (lit 0 0), Some (lit 1 0)], xs_f = [Some (lit 0 0), Some (lit 1 0)],
        vs_f = [Some (lit 1 0), Some (lit 1 0)], as_f = [Some (lit 0 0), Some (lit 0 0)],
        x0_f = lit 0 0, v0_f = lit 1 0, dt_f = lit 1 0 \<rparr>) = lit 1 0"
  using edit_frame [of js "''velocity''" 0 "lit 3 0"
      "\<lparr> times_f = [Some (lit 0 0), Some (lit 1 0)], xs_f = [Some (lit 0 0), Some (lit 1 0)],
        vs_f = [Some (lit 1 0), Some (lit 1 0)], as_f = [Some (lit 0 0), Some (lit 0 0)],
        x0_f = lit 0 0, v0_f = lit 1 0, dt_f = lit 1 0 \<rparr>"]
  by simp
lemma applyDragSync_position:
  assumes "index < length (xs_f state)"
  shows "applyDragSync R ''position'' index newValue state =
           state\<lparr> xs_f := (xs_f state)[index := Some newValue],
                  vs_f := computeVFromX R ((xs_f state)[index := Some newValue]) (dt_f state),
                  as_f := computeAFromX R ((xs_f state)[index := Some newValue]) (dt_f state) \<rparr>"
  using assms by (simp add: applyDragSync_def Let_def aset_in splice_all)

lemma applyDragSync_velocity:
  assumes "index < length (vs_f state)"
  shows "applyDragSync R ''velocity'' index newValue state =
           state\<lparr> vs_f := (vs_f state)[index := Some newValue],
                  xs_f := integrateVToX R ((vs_f state)[index := Some newValue]) (x0_f state)
                            (dt_f state),
                  as_f := computeAFromV R ((vs_f state)[index := Some newValue]) (dt_f state) \<rparr>"
  using assms by (simp add: applyDragSync_def Let_def aset_in splice_all)

lemma applyDragSync_acceleration:
  assumes "index < length (as_f state)"
  shows "applyDragSync R ''acceleration'' index newValue state =
           state\<lparr> as_f := (as_f state)[index := Some newValue],
                  vs_f := integrateAToV R ((as_f state)[index := Some newValue]) (v0_f state)
                            (dt_f state),
                  xs_f := integrateVToX R
                            (integrateAToV R ((as_f state)[index := Some newValue]) (v0_f state)
                               (dt_f state))
                            (x0_f state) (dt_f state) \<rparr>"
  using assms by (simp add: applyDragSync_def Let_def aset_in splice_all)

lemma applyDragSync_other:
  "chartType \<noteq> ''position'' \<Longrightarrow> chartType \<noteq> ''velocity'' \<Longrightarrow> chartType \<noteq> ''acceleration'' \<Longrightarrow>
     applyDragSync R chartType index newValue state = state"
  by (simp add: applyDragSync_def)

text \<open>
  \<^bold>\<open>C1.\<close> On a state whose four arrays have one length \<open>N\<close>, with \<open>index < N\<close>,
  \<^verbatim>\<open>applyDragSync\<close> follows the transition table. A position edit sets \<open>xs[index]\<close> and
  replaces \<open>vs\<close> by \<^verbatim>\<open>computeVFromX(xs, dt)\<close> and \<open>as\<close> by \<^verbatim>\<open>computeAFromX(xs, dt)\<close>. A
  velocity edit sets \<open>vs[index]\<close> and replaces \<open>xs\<close> by \<^verbatim>\<open>integrateVToX(vs, x0, dt)\<close> and
  \<open>as\<close> by \<^verbatim>\<open>computeAFromV(vs, dt)\<close>. An acceleration edit sets \<open>as[index]\<close>, replaces
  \<open>vs\<close> by \<^verbatim>\<open>integrateAToV(as, v0, dt)\<close> and \<open>xs\<close> by \<^verbatim>\<open>integrateVToX\<close> of that newly
  derived velocity array. After a position edit, the two differentiators applied to the
  stored positions give back the stored velocities and accelerations.
\<close>

theorem edit_transitions:
  assumes "equal_lengths state" and "index < length (times_f state)"
  shows "applyDragSync R ''position'' index newValue state =
           state\<lparr> xs_f := (xs_f state)[index := Some newValue],
                  vs_f := computeVFromX R ((xs_f state)[index := Some newValue]) (dt_f state),
                  as_f := computeAFromX R ((xs_f state)[index := Some newValue]) (dt_f state) \<rparr>
       \<and> applyDragSync R ''velocity'' index newValue state =
           state\<lparr> vs_f := (vs_f state)[index := Some newValue],
                  xs_f := integrateVToX R ((vs_f state)[index := Some newValue]) (x0_f state)
                            (dt_f state),
                  as_f := computeAFromV R ((vs_f state)[index := Some newValue]) (dt_f state) \<rparr>
       \<and> applyDragSync R ''acceleration'' index newValue state =
           state\<lparr> as_f := (as_f state)[index := Some newValue],
                  vs_f := integrateAToV R ((as_f state)[index := Some newValue]) (v0_f state)
                            (dt_f state),
                  xs_f := integrateVToX R
                            (integrateAToV R ((as_f state)[index := Some newValue]) (v0_f state)
                               (dt_f state))
                            (x0_f state) (dt_f state) \<rparr>
       \<and> computeVFromX R (xs_f (applyDragSync R ''position'' index newValue state))
             (dt_f (applyDragSync R ''position'' index newValue state))
           = vs_f (applyDragSync R ''position'' index newValue state)
       \<and> computeAFromX R (xs_f (applyDragSync R ''position'' index newValue state))
             (dt_f (applyDragSync R ''position'' index newValue state))
           = as_f (applyDragSync R ''position'' index newValue state)"
proof -
  have len: "index < length (xs_f state)" "index < length (vs_f state)"
    "index < length (as_f state)"
    using assms by (simp_all add: equal_lengths_def)
  show ?thesis
    by (simp add: applyDragSync_position [OF len(1)] applyDragSync_velocity [OF len(2)]
        applyDragSync_acceleration [OF len(3)])
qed

theorem edit_transitions_witness:
  "equal_lengths \<lparr> times_f = [Some (lit 0 0), Some (lit 1 0)], xs_f = [Some (lit 0 0), Some (lit 1 0)],
        vs_f = [Some (lit 1 0), Some (lit 1 0)], as_f = [Some (lit 0 0), Some (lit 0 0)],
        x0_f = lit 0 0, v0_f = lit 1 0, dt_f = lit 1 0 \<rparr>
   \<and> 1 < length (times_f \<lparr> times_f = [Some (lit 0 0), Some (lit 1 0)],
        xs_f = [Some (lit 0 0), Some (lit 1 0)],
        vs_f = [Some (lit 1 0), Some (lit 1 0)], as_f = [Some (lit 0 0), Some (lit 0 0)],
        x0_f = lit 0 0, v0_f = lit 1 0, dt_f = lit 1 0 \<rparr>)
   \<and> applyDragSync js ''acceleration'' 1 (lit 3 0)
        \<lparr> times_f = [Some (lit 0 0), Some (lit 1 0)], xs_f = [Some (lit 0 0), Some (lit 1 0)],
          vs_f = [Some (lit 1 0), Some (lit 1 0)], as_f = [Some (lit 0 0), Some (lit 0 0)],
          x0_f = lit 0 0, v0_f = lit 1 0, dt_f = lit 1 0 \<rparr>
       = \<lparr> times_f = [Some (lit 0 0), Some (lit 1 0)],
           xs_f = integrateVToX js
                    (integrateAToV js [Some (lit 0 0), Some (lit 3 0)] (lit 1 0) (lit 1 0))
                    (lit 0 0) (lit 1 0),
           vs_f = integrateAToV js [Some (lit 0 0), Some (lit 3 0)] (lit 1 0) (lit 1 0),
           as_f = [Some (lit 0 0), Some (lit 3 0)],
           x0_f = lit 0 0, v0_f = lit 1 0, dt_f = lit 1 0 \<rparr>"
proof -
  let ?s = "\<lparr> times_f = [Some (lit 0 0), Some (lit 1 0)], xs_f = [Some (lit 0 0), Some (lit 1 0)],
        vs_f = [Some (lit 1 0), Some (lit 1 0)], as_f = [Some (lit 0 0), Some (lit 0 0)],
        x0_f = lit 0 0, v0_f = lit 1 0, dt_f = lit 1 0 \<rparr>"
  have e: "equal_lengths ?s" by (simp add: equal_lengths_def)
  have i: "1 < length (times_f ?s)" by simp
  show ?thesis
    using e i edit_transitions [OF e i, of js "lit 3 0"] by simp
qed

section \<open>The CSV export\<close>

lemma csv_row_num:
  assumes "i < length ts" "i < length xs" "i < length vs" "i < length as"
  shows "csv_row R (map Some ts) (map Some xs) (map Some vs) (map Some as) i =
           Inr [r_toFixed R 6 (ts ! i), r_toFixed R 6 (xs ! i), r_toFixed R 6 (vs ! i),
                r_toFixed R 6 (as ! i)]"
  using assms by (simp add: csv_row_def call_toFixed_def aget_def)

lemma csv_rows:
  assumes "length xs = length ts" and "length vs = length ts" and "length as = length ts"
  shows "csvFromData R (map Some ts) (map Some xs) (map Some vs) (map Some as) =
           Inr (join [CHR 0x0A]
                  (''t (s),x (m),v (m/s),a (m/s^2)'' #
                   map (\<lambda>i. r_toFixed R 6 (ts ! i) @ '','' @ r_toFixed R 6 (xs ! i) @ '','' @
                             r_toFixed R 6 (vs ! i) @ '','' @ r_toFixed R 6 (as ! i))
                     [0..<length ts]))"
proof -
  let ?row = "\<lambda>i. [r_toFixed R 6 (ts ! i), r_toFixed R 6 (xs ! i), r_toFixed R 6 (vs ! i),
                     r_toFixed R 6 (as ! i)]"
  let ?hdr = "[''t (s)'', ''x (m)'', ''v (m/s)'', ''a (m/s^2)'']"
  let ?body = "\<lambda>i acc. case acc of Inl e \<Rightarrow> Inl e
                 | Inr ls \<Rightarrow> (case csv_row R (map Some ts) (map Some xs) (map Some vs)
                                       (map Some as) i of
                               Inl e \<Rightarrow> Inl e | Inr row \<Rightarrow> Inr (ls @ [row]))"
  let ?P = "\<lambda>k acc. acc = (Inr (?hdr # map ?row [0..<k]) :: error + string list list)"
  have "?P (length ts) (for_loop 0 (length ts) ?body (Inr [?hdr]))"
  proof (rule for_loop_inv [where P = ?P])
    show "?P 0 (Inr [?hdr])" by simp
    show "0 \<le> length ts" by simp
    fix j acc assume "j < length ts" and "?P j acc"
    then show "?P (j + 1) (?body j acc)"
      using assms by (simp add: csv_row_num)
  qed
  then have "csvFromData R (map Some ts) (map Some xs) (map Some vs) (map Some as) =
               Inr (join [CHR 0x0A] (map (join '','') (?hdr # map ?row [0..<length ts])))"
    by (simp add: csvFromData_def Let_def)
  then show ?thesis by (simp add: comp_def)
qed

text \<open>
  \<^bold>\<open>C6\<close> (as amended). For four arrays of \<open>N\<close> numbers each, \<^verbatim>\<open>csvFromData\<close> returns
  the header row \<^verbatim>\<open>t (s),x (m),v (m/s),a (m/s^2)\<close> (the four titles joined by commas, no
  spaces after them) followed by one row per sample, the four values formatted by
  \<^verbatim>\<open>toFixed(6)\<close> and joined by commas; the rows are joined by single newline characters,
  so no newline follows the last row.
\<close>

theorem csv_layout:
  assumes "length xs = length ts" and "length vs = length ts" and "length as = length ts"
  shows "csvFromData R (map Some ts) (map Some xs) (map Some vs) (map Some as) =
           Inr (join [CHR 0x0A]
                  (''t (s),x (m),v (m/s),a (m/s^2)'' #
                   map (\<lambda>i. r_toFixed R 6 (ts ! i) @ '','' @ r_toFixed R 6 (xs ! i) @ '','' @
                             r_toFixed R 6 (vs ! i) @ '','' @ r_toFixed R 6 (as ! i))
                     [0..<length ts]))"
  using assms by (rule csv_rows)

theorem csv_layout_witness:
  "length [lit 0 0] = length [lit 0 0] \<and> length [lit 5 0] = length [lit 0 0]
   \<and> length [lit 2 0] = length [lit 0 0]
   \<and> csvFromData js (map Some [lit 0 0]) (map Some [lit 0 0]) (map Some [lit 5 0])
        (map Some [lit 2 0])
       = Inr (join [CHR 0x0A]
                [''t (s),x (m),v (m/s),a (m/s^2)'',
                 r_toFixed js 6 (lit 0 0) @ '','' @ r_toFixed js 6 (lit 0 0) @ '','' @
                 r_toFixed js 6 (lit 5 0) @ '','' @ r_toFixed js 6 (lit 2 0)])"
  using csv_layout [of "[lit 0 0]" "[lit 0 0]" "[lit 5 0]" "[lit 2 0]" js]
  by simp

lemma csv_example:
  "csvFromData js [Some (lit 0 0)] [Some (lit 0 0)] [Some (lit 5 0)] [Some (lit 2 0)]
     = Inr (''t (s),x (m),v (m/s),a (m/s^2)'' @ [CHR 0x0A] @ ''0.000000,0.000000,5.000000,2.000000'')"
proof -
  have f: "toFixed 6 (lit 0 0) = ''0.000000''" "toFixed 6 (lit 5 0) = ''5.000000''"
    "toFixed 6 (lit 2 0) = ''2.000000''"
    by (simp_all add: lit_vals toFixed.simps js_eval fixed_digits_def dec.simps digit_char_def
        eval_nat_numeral cong: let_weak_cong)
  show ?thesis
    using csv_rows [of "[lit 0 0]" "[lit 0 0]" "[lit 5 0]" "[lit 2 0]" js]
    by (simp add: f)
qed

text \<open>
  The claim as stated fails on the trajectory with the single sample \<open>(0, 0, 5, 2)\<close>: the
  output does not end with a newline, and it is not the text the claim describes.
\<close>

theorem csv_not_newline_terminated:
  "csvFromData js [Some (lit 0 0)] [Some (lit 0 0)] [Some (lit 5 0)] [Some (lit 2 0)]
     = Inr (''t (s),x (m),v (m/s),a (m/s^2)'' @ [CHR 0x0A] @ ''0.000000,0.000000,5.000000,2.000000'')
   \<and> last (''t (s),x (m),v (m/s),a (m/s^2)'' @ [CHR 0x0A] @ ''0.000000,0.000000,5.000000,2.000000'')
       \<noteq> CHR 0x0A
   \<and> csvFromData js [Some (lit 0 0)] [Some (lit 0 0)] [Some (lit 5 0)] [Some (lit 2 0)]
       \<noteq> Inr (''t (s), x (m), v (m/s), a (m/s^2)'' @ [CHR 0x0A]
               @ ''0.000000,0.000000,5.000000,2.000000'' @ [CHR 0x0A])"
  by (simp add: csv_example)

section \<open>The generator\<close>

text \<open>
  \<^bold>\<open>C8.\<close> When \<^verbatim>\<open>dt <= 0\<close> holds, \<^verbatim>\<open>computeKinematics\<close> returns the four arrays empty,
  whatever the other arguments. The function has no statement that throws: the model's result
  type has no error value.
\<close>

theorem nonpositive_step_empty:
  "r_le R dt (r_lit R 0 0) \<Longrightarrow>
     computeKinematics R x0 v0 a t0 t1 dt maxPoints =
       \<lparr> times_f = [], xs_f = [], vs_f = [], as_f = [] \<rparr>"
  by (simp add: computeKinematics_def)

theorem nonpositive_step_empty_witness:
  "r_le js (lit (- 1) (- 1)) (r_lit js 0 0)
   \<and> computeKinematics js (lit 0 0) (lit 5 0) (lit 2 0) (lit 0 0) (lit 10 0) (lit (- 1) (- 1)) 1000
       = \<lparr> times_f = [], xs_f = [], vs_f = [], as_f = [] \<rparr>"
proof -
  have h: "r_le js (lit (- 1) (- 1)) (r_lit js 0 0)"
    by (simp add: lit_vals js_eval cong: let_weak_cong)
  show ?thesis
    using h nonpositive_step_empty [OF h, of "lit 0 0" "lit 5 0" "lit 2 0" "lit 0 0" "lit 10 0" 1000]
    by simp
qed
subsection \<open>The four arrays grow together\<close>

lemma loop_equal_lengths:
  "equal_lengths acc \<Longrightarrow> equal_lengths (computeKinematics_loop R x0 v0 a t1 dt maxPoints t acc)"
proof (induction R x0 v0 a t1 dt maxPoints t acc rule: computeKinematics_loop.induct)
  case (1 R x0 v0 a t1 dt maxPoints t acc)
  show ?case
  proof (cases "r_le R t (r_add R t1 (r_lit R 1 (- 12)))")
    case False
    then show ?thesis using "1.prems" by (subst computeKinematics_loop.simps) simp
  next
    case True
    let ?acc' = "\<lparr> times_f = push (times_f acc) (r_Number_toFixed R 8 t),
        xs_f = push (xs_f acc) (r_Number_toFixed R 8
                 (r_add R (r_add R x0 (r_mul R v0 t))
                    (r_mul R (r_mul R (r_mul R (r_lit R 5 (- 1)) a) t) t))),
        vs_f = push (vs_f acc) (r_Number_toFixed R 8 (r_add R v0 (r_mul R a t))),
        as_f = push (as_f acc) (r_Number_toFixed R 8 a) \<rparr>"
    have eq': "equal_lengths ?acc'"
      using "1.prems" by (simp add: equal_lengths_def push_def)
    show ?thesis
    proof (cases "maxPoints \<le> length (times_f ?acc')")
      case stop: True
      then show ?thesis
        using True eq' by (subst computeKinematics_loop.simps) (simp add: Let_def)
    next
      case go: False
      have "equal_lengths (computeKinematics_loop R x0 v0 a t1 dt maxPoints (r_add R t dt) ?acc')"
        using "1.IH" [OF True refl refl refl go eq'] .
      then show ?thesis
        using True go by (subst computeKinematics_loop.simps) (simp add: Let_def)
    qed
  qed
qed

lemma equal_lengths_empty:
  "equal_lengths \<lparr> times_f = [], xs_f = [], vs_f = [], as_f = [] \<rparr>"
  by (simp add: equal_lengths_def)

lemma computeKinematics_equal_lengths:
  "equal_lengths (computeKinematics R x0 v0 a t0 t1 dt maxPoints)"
  by (simp add: computeKinematics_def Let_def loop_equal_lengths equal_lengths_empty)

lemma applyDragSync_equal_lengths:
  assumes "equal_lengths state" and "index < length (times_f state)"
  shows "equal_lengths (applyDragSync R chartType index newValue state)
         \<and> length (times_f (applyDragSync R chartType index newValue state))
             = length (times_f state)"
proof -
  have len: "length (xs_f state) = length (times_f state)"
    "length (vs_f state) = length (times_f state)" "length (as_f state) = length (times_f state)"
    using assms(1) by (simp_all add: equal_lengths_def)
  have ne: "(vs_f state)[index := Some newValue] \<noteq> []" "(as_f state)[index := Some newValue] \<noteq> []"
    using assms(2) len by auto
  have ne2: "integrateAToV R ((as_f state)[index := Some newValue]) (v0_f state) (dt_f state) \<noteq> []"
    using length_integrateAToV [OF ne(2), of R "v0_f state" "dt_f state"] ne(2) by auto
  consider "chartType = ''position''" | "chartType = ''velocity''" | "chartType = ''acceleration''"
    | "chartType \<noteq> ''position''" "chartType \<noteq> ''velocity''" "chartType \<noteq> ''acceleration''"
    by blast
  then show ?thesis
  proof cases
    case 1
    then show ?thesis
      using assms(2) len
      by (simp add: applyDragSync_position equal_lengths_def length_computeVFromX
          length_computeAFromX)
  next
    case 2
    then show ?thesis
      using assms(2) len ne
      by (simp add: applyDragSync_velocity equal_lengths_def length_integrateVToX
          length_computeAFromV)
  next
    case 3
    then show ?thesis
      using assms(2) len ne ne2
      by (simp add: applyDragSync_acceleration equal_lengths_def length_integrateVToX
          length_integrateAToV)
  next
    case 4
    then show ?thesis using assms(1) by (simp add: applyDragSync_other)
  qed
qed

text \<open>
  \<^bold>\<open>C3.\<close> The four arrays \<^verbatim>\<open>computeKinematics\<close> returns have one length, for all
  arguments. When the four arrays of the state have one length \<open>N \<ge> 1\<close> and \<open>index < N\<close>,
  they have the length \<open>N\<close> again after \<^verbatim>\<open>applyDragSync\<close>, whatever the series name.
\<close>

theorem four_arrays_equal_length:
  "equal_lengths (computeKinematics R x0 v0 a t0 t1 dt maxPoints)
   \<and> (equal_lengths state \<and> 1 \<le> length (times_f state) \<and> index < length (times_f state) \<longrightarrow>
        equal_lengths (applyDragSync R chartType index newValue state)
        \<and> length (times_f (applyDragSync R chartType index newValue state))
            = length (times_f state))"
  using computeKinematics_equal_lengths [of R x0 v0 a t0 t1 dt maxPoints]
    applyDragSync_equal_lengths [of state index R chartType newValue]
  by simp

theorem four_arrays_equal_length_witness:
  "equal_lengths \<lparr> times_f = [Some (lit 0 0), Some (lit 1 0)], xs_f = [Some (lit 0 0), Some (lit 1 0)],
        vs_f = [Some (lit 1 0), Some (lit 1 0)], as_f = [Some (lit 0 0), Some (lit 0 0)],
        x0_f = lit 0 0, v0_f = lit 1 0, dt_f = lit 1 0 \<rparr>
   \<and> 1 \<le> length (times_f \<lparr> times_f = [Some (lit 0 0), Some (lit 1 0)],
        xs_f = [Some (lit 0 0), Some (lit 1 0)],
        vs_f = [Some (lit 1 0), Some (lit 1 0)], as_f = [Some (lit 0 0), Some (lit 0 0)],
        x0_f = lit 0 0, v0_f = lit 1 0, dt_f = lit 1 0 \<rparr>)
   \<and> equal_lengths (applyDragSync js ''velocity'' 1 (lit 3 0)
        \<lparr> times_f = [Some (lit 0 0), Some (lit 1 0)], xs_f = [Some (lit 0 0), Some (lit 1 0)],
          vs_f = [Some (lit 1 0), Some (lit 1 0)], as_f = [Some (lit 0 0), Some (lit 0 0)],
          x0_f = lit 0 0, v0_f = lit 1 0, dt_f = lit 1 0 \<rparr>)
   \<and> length (times_f (applyDragSync js ''velocity'' 1 (lit 3 0)
        \<lparr> times_f = [Some (lit 0 0), Some (lit 1 0)], xs_f = [Some (lit 0 0), Some (lit 1 0)],
          vs_f = [Some (lit 1 0), Some (lit 1 0)], as_f = [Some (lit 0 0), Some (lit 0 0)],
          x0_f = lit 0 0, v0_f = lit 1 0, dt_f = lit 1 0 \<rparr>)) = 2"
proof -
  let ?s = "\<lparr> times_f = [Some (lit 0 0), Some (lit 1 0)], xs_f = [Some (lit 0 0), Some (lit 1 0)],
        vs_f = [Some (lit 1 0), Some (lit 1 0)], as_f = [Some (lit 0 0), Some (lit 0 0)],
        x0_f = lit 0 0, v0_f = lit 1 0, dt_f = lit 1 0 \<rparr>"
  have e: "equal_lengths ?s" by (simp add: equal_lengths_def)
  show ?thesis
    using e four_arrays_equal_length [of js "lit 0 0" "lit 0 0" "lit 0 0" "lit 0 0" "lit 0 0"
        "lit 0 0" 0 ?s 1 "''velocity''" "lit 3 0", THEN conjunct2]
    by simp
qed

subsection \<open>The loop and the sample times\<close>

lemma iterates_Suc:
  "map (\<lambda>k. (f ^^ k) t) [0..<Suc n] = t # map (\<lambda>k. (f ^^ k) (f t)) [0..<n]"
  by (simp only: map_upt_Suc funpow_Suc_right) (simp del: upt_Suc)

lemma loop_samples:
  "computeKinematics_loop R x0 v0 a t1 dt maxPoints t acc =
     (let ts = takeWhile (\<lambda>t. r_le R t (r_add R t1 (r_lit R 1 (- 12))))
                 (map (\<lambda>k. ((\<lambda>t. r_add R t dt) ^^ k) t)
                    [0..<max 1 (maxPoints - length (times_f acc))])
      in \<lparr> times_f = times_f acc @ map (\<lambda>t. Some (r_Number_toFixed R 8 t)) ts,
           xs_f = xs_f acc @
             map (\<lambda>t. Some (r_Number_toFixed R 8
                         (r_add R (r_add R x0 (r_mul R v0 t))
                            (r_mul R (r_mul R (r_mul R (r_lit R 5 (- 1)) a) t) t)))) ts,
           vs_f = vs_f acc @ map (\<lambda>t. Some (r_Number_toFixed R 8 (r_add R v0 (r_mul R a t)))) ts,
           as_f = as_f acc @ map (\<lambda>t. Some (r_Number_toFixed R 8 a)) ts \<rparr>)"
proof (induction R x0 v0 a t1 dt maxPoints t acc rule: computeKinematics_loop.induct)
  case (1 R x0 v0 a t1 dt maxPoints t acc)
  let ?c = "length (times_f acc)"
  let ?cond = "\<lambda>t. r_le R t (r_add R t1 (r_lit R 1 (- 12)))"
  let ?f = "\<lambda>t. r_add R t dt"
  obtain n where n: "max 1 (maxPoints - ?c) = Suc n"
    by (cases "max 1 (maxPoints - ?c)") auto
  have its: "map (\<lambda>k. (?f ^^ k) t) [0..<max 1 (maxPoints - ?c)]
               = t # map (\<lambda>k. (?f ^^ k) (?f t)) [0..<n]"
    unfolding n by (rule iterates_Suc)
  have tw: "takeWhile ?cond (map (\<lambda>k. (?f ^^ k) t) [0..<max 1 (maxPoints - ?c)])
              = (if ?cond t then t # takeWhile ?cond (map (\<lambda>k. (?f ^^ k) (?f t)) [0..<n]) else [])"
    by (simp only: its takeWhile.simps)
  show ?case
  proof (cases "?cond t")
    case False
    then show ?thesis
      by (subst computeKinematics_loop.simps) (simp only: tw, simp)
  next
    case True
    let ?acc' = "\<lparr> times_f = push (times_f acc) (r_Number_toFixed R 8 t),
        xs_f = push (xs_f acc) (r_Number_toFixed R 8
                 (r_add R (r_add R x0 (r_mul R v0 t))
                    (r_mul R (r_mul R (r_mul R (r_lit R 5 (- 1)) a) t) t))),
        vs_f = push (vs_f acc) (r_Number_toFixed R 8 (r_add R v0 (r_mul R a t))),
        as_f = push (as_f acc) (r_Number_toFixed R 8 a) \<rparr>"
    show ?thesis
    proof (cases "maxPoints \<le> length (times_f ?acc')")
      case stop: True
      then have "n = 0" using n by (auto simp: push_def max_def split: if_splits)
      then show ?thesis
        using True stop
        by (subst computeKinematics_loop.simps) (simp only: tw, simp add: Let_def push_def)
    next
      case go: False
      then have n': "max 1 (maxPoints - length (times_f ?acc')) = n"
        using n by (auto simp: push_def max_def split: if_splits)
      note IH = "1.IH" [OF True refl refl refl go, unfolded n']
      show ?thesis
        using True go
        by (subst computeKinematics_loop.simps)
           (simp only: tw, simp add: Let_def IH, simp add: push_def)
    qed
  qed
qed

lemma computeKinematics_samples:
  assumes "\<not> r_le R dt (r_lit R 0 0)"
  shows "computeKinematics R x0 v0 a t0 t1 dt maxPoints =
     \<lparr> times_f = map (\<lambda>t. Some (r_Number_toFixed R 8 t)) (sample_times R t0 t1 dt maxPoints),
       xs_f = map (\<lambda>t. Some (r_Number_toFixed R 8
                     (r_add R (r_add R x0 (r_mul R v0 t))
                        (r_mul R (r_mul R (r_mul R (r_lit R 5 (- 1)) a) t) t))))
                (sample_times R t0 t1 dt maxPoints),
       vs_f = map (\<lambda>t. Some (r_Number_toFixed R 8 (r_add R v0 (r_mul R a t))))
                (sample_times R t0 t1 dt maxPoints),
       as_f = map (\<lambda>t. Some (r_Number_toFixed R 8 a)) (sample_times R t0 t1 dt maxPoints) \<rparr>"
  using assms
  by (simp add: computeKinematics_def loop_samples sample_times_def Let_def del: upt_Suc)

lemma computeKinematics_length:
  "length (times_f (computeKinematics R x0 v0 a t0 t1 dt maxPoints)) =
     (if r_le R dt (r_lit R 0 0) then 0 else length (sample_times R t0 t1 dt maxPoints))"
  by (simp add: computeKinematics_samples) (simp add: computeKinematics_def)

lemma run_append:
  "run R lim dt (m + n) t = (case run R lim dt m t of None \<Rightarrow> None | Some t' \<Rightarrow> run R lim dt n t')"
  by (induction m arbitrary: t) simp_all

lemma run_chain:
  "run R lim dt m t = Some t' \<Longrightarrow> run R lim dt n t' = Some t'' \<Longrightarrow>
     run R lim dt (m + n) t = Some t''"
  by (simp add: run_append)

lemma run_iterates:
  "run R lim dt n t = Some t' \<Longrightarrow>
     t' = ((\<lambda>t. r_add R t dt) ^^ n) t
     \<and> takeWhile (\<lambda>t. r_le R t lim) (map (\<lambda>k. ((\<lambda>t. r_add R t dt) ^^ k) t) [0..<n])
         = map (\<lambda>k. ((\<lambda>t. r_add R t dt) ^^ k) t) [0..<n]"
proof (induction n arbitrary: t)
  case 0
  then show ?case by simp
next
  case (Suc n)
  from Suc.prems have c: "r_le R t lim" and r: "run R lim dt n (r_add R t dt) = Some t'"
    by (simp_all split: if_splits)
  from Suc.IH [OF r] c show ?case
    by (simp only: iterates_Suc funpow_Suc_right) simp
qed

lemma takeWhile_iterates_stop:
  assumes "run R lim dt n t = Some t'" and "\<not> r_le R t' lim" and "n < N"
  shows "takeWhile (\<lambda>t. r_le R t lim) (map (\<lambda>k. ((\<lambda>t. r_add R t dt) ^^ k) t) [0..<N])
           = map (\<lambda>k. ((\<lambda>t. r_add R t dt) ^^ k) t) [0..<n]"
proof -
  let ?it = "\<lambda>k. ((\<lambda>t. r_add R t dt) ^^ k) t"
  have split: "[0..<N] = [0..<n] @ n # [Suc n..<N]"
    using assms(3) by (metis less_imp_add_positive upt_add_eq_append upt_conv_Cons zero_le le_add1 add.commute less_eq_nat.simps(1) upt_rec)
  have all: "\<forall>x \<in> set (map ?it [0..<n]). r_le R x lim"
    using run_iterates [OF assms(1)] by (metis takeWhile_eq_all_conv)
  have tn: "?it n = t'" using run_iterates [OF assms(1)] by simp
  have "takeWhile (\<lambda>t. r_le R t lim) (map ?it [0..<n] @ map ?it (n # [Suc n..<N]))
          = map ?it [0..<n] @ takeWhile (\<lambda>t. r_le R t lim) (map ?it (n # [Suc n..<N]))"
    by (rule takeWhile_append2) (use all in blast)
  also have "takeWhile (\<lambda>t. r_le R t lim) (map ?it (n # [Suc n..<N])) = []"
    using tn assms(2) by simp
  finally show ?thesis
    by (subst split) (simp only: map_append append_Nil2)
qed

lemma sample_times_window:
  assumes "run R (r_add R t1 (r_lit R 1 (- 12))) dt n t0 = Some t'"
    and "\<not> r_le R t' (r_add R t1 (r_lit R 1 (- 12)))" and "n < max 1 maxPoints"
  shows "sample_times R t0 t1 dt maxPoints = map (\<lambda>k. ((\<lambda>t. r_add R t dt) ^^ k) t0) [0..<n]"
  unfolding sample_times_def using assms by (rule takeWhile_iterates_stop)

lemma sample_times_capped:
  assumes "run R (r_add R t1 (r_lit R 1 (- 12))) dt (max 1 maxPoints) t0 = Some t'"
  shows "sample_times R t0 t1 dt maxPoints
           = map (\<lambda>k. ((\<lambda>t. r_add R t dt) ^^ k) t0) [0..<max 1 maxPoints]"
  unfolding sample_times_def using run_iterates [OF assms] by simp

lemma run_final: "run R lim dt k t0 = Some tk \<Longrightarrow> ((\<lambda>t. r_add R t dt) ^^ k) t0 = tk"
  using run_iterates [of R lim dt k t0 tk] by simp

lemma run_all:
  "(\<forall>k<n. r_le R (((\<lambda>t. r_add R t dt) ^^ k) t) lim) \<Longrightarrow>
     run R lim dt n t = Some (((\<lambda>t. r_add R t dt) ^^ n) t)"
proof (induction n arbitrary: t)
  case 0
  then show ?case by simp
next
  case (Suc n)
  have "r_le R t lim" using Suc.prems [rule_format, of 0] by simp
  moreover have "\<forall>k<n. r_le R (((\<lambda>t. r_add R t dt) ^^ k) (r_add R t dt)) lim"
  proof (intro allI impI)
    fix k assume "k < n"
    then have "r_le R (((\<lambda>t. r_add R t dt) ^^ Suc k) t) lim"
      using Suc.prems by (simp del: funpow.simps)
    then show "r_le R (((\<lambda>t. r_add R t dt) ^^ k) (r_add R t dt)) lim"
      by (simp only: funpow_Suc_right comp_apply)
  qed
  moreover have "((\<lambda>t. r_add R t dt) ^^ Suc n) t = ((\<lambda>t. r_add R t dt) ^^ n) (r_add R t dt)"
    by (simp only: funpow_Suc_right comp_apply)
  ultimately show ?case using Suc.IH by (simp del: funpow.simps)
qed

lemma sample_times_all:
  assumes "\<forall>k<max 1 maxPoints. r_le R (((\<lambda>t. r_add R t dt) ^^ k) t0) (r_add R t1 (r_lit R 1 (- 12)))"
  shows "length (sample_times R t0 t1 dt maxPoints) = max 1 maxPoints"
  using sample_times_capped [OF run_all [OF assms]] by simp

lemma length_sample_times_le: "length (sample_times R t0 t1 dt maxPoints) \<le> max 1 maxPoints"
  unfolding sample_times_def
  by (rule order_trans [OF length_takeWhile_le]) simp

subsection \<open>Ten seconds in steps of a tenth\<close>

text \<open>
  The sample times of \<^verbatim>\<open>computeKinematics(0, 5, 2, 0, 10, 0.1)\<close>, twenty-five additions at a
  time: the limit \<open>10 + 10\<^sup>-\<^sup>1\<^sup>2\<close>, the step \<open>0.1\<close>, and the time reached, as doubles. A
  hundred additions of \<open>0.1\<close> give \<open>9.99999999999998\<close>, within the limit; one more does not.
\<close>

lemma tenth_steps_0:
  "run js (Fin False 5629499534213683 (- 49)) (Fin False 7205759403792794 (- 56)) 25
     (Fin False 0 (- 1074)) = Some (Fin False 5629499534213122 (- 51))"
  by (simp add: run_numeral js_eval cong: let_weak_cong)

lemma tenth_steps_25:
  "run js (Fin False 5629499534213683 (- 49)) (Fin False 7205759403792794 (- 56)) 25
     (Fin False 5629499534213122 (- 51)) = Some (Fin False 5629499534213118 (- 50))"
  by (simp add: run_numeral js_eval cong: let_weak_cong)

lemma tenth_steps_50:
  "run js (Fin False 5629499534213683 (- 49)) (Fin False 7205759403792794 (- 56)) 25
     (Fin False 5629499534213118 (- 50)) = Some (Fin False 8444249301319668 (- 50))"
  by (simp add: run_numeral js_eval cong: let_weak_cong)

lemma tenth_steps_75:
  "run js (Fin False 5629499534213683 (- 49)) (Fin False 7205759403792794 (- 56)) 25
     (Fin False 8444249301319668 (- 50)) = Some (Fin False 5629499534213109 (- 49))"
  by (simp add: run_numeral js_eval cong: let_weak_cong)

lemma tenth_steps_100:
  "run js (Fin False 5629499534213683 (- 49)) (Fin False 7205759403792794 (- 56)) 100
     (Fin False 0 (- 1074)) = Some (Fin False 5629499534213109 (- 49))"
proof -
  note s = tenth_steps_0
  note s = run_chain [OF s tenth_steps_25, simplified]
  note s = run_chain [OF s tenth_steps_50, simplified]
  note s = run_chain [OF s tenth_steps_75, simplified]
  show ?thesis by (rule s)
qed

lemma lim_10: "fadd (Fin False 5629499534213120 (- 49)) (Fin False 4951760157141521 (- 92)) = Fin False 5629499534213683 (- 49)"
  by (simp add: js_eval cong: let_weak_cong)

lemma past_101: "\<not> fle (Fin False 5685794529555240 (- 49)) (Fin False 5629499534213683 (- 49))"
  by (simp add: js_eval cong: let_weak_cong)

lemma dt_pos: "\<not> fle (Fin False 7205759403792794 (- 56)) (Fin False 0 (- 1074))"
  by (simp add: js_eval cong: let_weak_cong)

lemma fix_t0: "Number_toFixed 8 (Fin False 0 (- 1074)) = Fin False 0 (- 1074)"
  by (simp add: js_eval cong: let_weak_cong)

lemma fix_t100: "Number_toFixed 8 (Fin False 5629499534213109 (- 49)) = Fin False 5629499534213120 (- 49)"
  by (simp add: js_eval cong: let_weak_cong)

lemma x_t0: "Number_toFixed 8 (fadd (fadd (Fin False 0 (- 1074)) (fmul (Fin False 5629499534213120 (- 50)) (Fin False 0 (- 1074)))) (fmul (fmul (fmul (Fin False 4503599627370496 (- 53)) (Fin False 4503599627370496 (- 51))) (Fin False 0 (- 1074))) (Fin False 0 (- 1074)))) = Fin False 0 (- 1074)"
  by (simp add: js_eval cong: let_weak_cong)

lemma v_t0: "Number_toFixed 8 (fadd (Fin False 5629499534213120 (- 50)) (fmul (Fin False 4503599627370496 (- 51)) (Fin False 0 (- 1074)))) = Fin False 5629499534213120 (- 50)"
  by (simp add: js_eval cong: let_weak_cong)

lemma x_t100: "Number_toFixed 8 (fadd (fadd (Fin False 0 (- 1074)) (fmul (Fin False 5629499534213120 (- 50)) (Fin False 5629499534213109 (- 49)))) (fmul (fmul (fmul (Fin False 4503599627370496 (- 53)) (Fin False 4503599627370496 (- 51))) (Fin False 5629499534213109 (- 49))) (Fin False 5629499534213109 (- 49)))) = Fin False 5277655813324800 (- 45)"
  by (simp add: js_eval cong: let_weak_cong)

lemma v_t100: "Number_toFixed 8 (fadd (Fin False 5629499534213120 (- 50)) (fmul (Fin False 4503599627370496 (- 51)) (Fin False 5629499534213109 (- 49)))) = Fin False 7036874417766400 (- 48)"
  by (simp add: js_eval cong: let_weak_cong)

lemma step_101:
  "run js (Fin False 5629499534213683 (- 49)) (Fin False 7205759403792794 (- 56)) 101
     (Fin False 0 (- 1074)) = Some (Fin False 5685794529555240 (- 49))"
  using run_append [of js "Fin False 5629499534213683 (- 49)" "Fin False 7205759403792794 (- 56)"
      100 1 "Fin False 0 (- 1074)"] tenth_steps_100
  by (simp add: js_eval cong: let_weak_cong)

text \<open>
  \<^bold>\<open>C2.\<close> When \<^verbatim>\<open>dt <= 0\<close> does not hold, \<^verbatim>\<open>computeKinematics\<close> samples at
  \<open>t = t0, t0 + dt, t0 + dt + dt, \<dots>\<close> while \<^verbatim>\<open>t <= t1 + 1e-12\<close> (at most \<open>maxPoints\<close>
  samples, see C7) and stores at each sample \<^verbatim>\<open>x0 + v0 * t + 0.5 * a * t * t\<close>,
  \<^verbatim>\<open>v0 + a * t\<close> and \<open>a\<close>, each passed through \<^verbatim>\<open>Number(_.toFixed(8))\<close>, as is \<open>t\<close>. In
  double-precision arithmetic, \<^verbatim>\<open>computeKinematics(0, 5, 2, 0, 10, 0.1)\<close> with the default
  \<open>maxPoints = 1000\<close> returns 101 points with \<open>times[0] = 0\<close>, \<open>xs[0] = 0\<close>, \<open>vs[0] = 5\<close>,
  \<open>times[100] = 10\<close>, \<open>xs[100] = 150\<close> and \<open>vs[100] = 25\<close>.
\<close>

theorem generate_samples:
  "(\<not> r_le R dt (r_lit R 0 0) \<longrightarrow>
      computeKinematics R x0 v0 a t0 t1 dt maxPoints =
        \<lparr> times_f = map (\<lambda>t. Some (r_Number_toFixed R 8 t)) (sample_times R t0 t1 dt maxPoints),
          xs_f = map (\<lambda>t. Some (r_Number_toFixed R 8
                        (r_add R (r_add R x0 (r_mul R v0 t))
                           (r_mul R (r_mul R (r_mul R (r_lit R 5 (- 1)) a) t) t))))
                   (sample_times R t0 t1 dt maxPoints),
          vs_f = map (\<lambda>t. Some (r_Number_toFixed R 8 (r_add R v0 (r_mul R a t))))
                   (sample_times R t0 t1 dt maxPoints),
          as_f = map (\<lambda>t. Some (r_Number_toFixed R 8 a)) (sample_times R t0 t1 dt maxPoints) \<rparr>)
   \<and> (let G = computeKinematics js (lit 0 0) (lit 5 0) (lit 2 0) (lit 0 0) (lit 10 0) (lit 1 (- 1)) 1000
      in length (times_f G) = 101 \<and> length (xs_f G) = 101 \<and> length (vs_f G) = 101
         \<and> length (as_f G) = 101
         \<and> times_f G ! 0 = Some (lit 0 0) \<and> xs_f G ! 0 = Some (lit 0 0)
         \<and> vs_f G ! 0 = Some (lit 5 0)
         \<and> times_f G ! 100 = Some (lit 10 0) \<and> xs_f G ! 100 = Some (lit 150 0)
         \<and> vs_f G ! 100 = Some (lit 25 0))"
proof -
  let ?t0 = "lit 0 0" and ?dt = "lit 1 (- 1)" and ?t1 = "lit 10 0"
  let ?it = "\<lambda>k. ((\<lambda>t. r_add js t ?dt) ^^ k) ?t0"
  let ?S = "sample_times js ?t0 ?t1 ?dt 1000"
  have pos: "\<not> r_le js ?dt (r_lit js 0 0)"
    using dt_pos by (simp add: lit_vals)
  have r101: "run js (r_add js ?t1 (r_lit js 1 (- 12))) ?dt 101 ?t0
                = Some (Fin False 5685794529555240 (- 49))"
    using step_101 by (simp add: lit_vals lim_10)
  have past: "\<not> r_le js (Fin False 5685794529555240 (- 49)) (r_add js ?t1 (r_lit js 1 (- 12)))"
    using past_101 by (simp add: lit_vals lim_10)
  have S: "?S = map ?it [0..<101]"
    by (rule sample_times_window [OF r101 past]) simp
  have len: "length ?S = 101" unfolding S by simp
  have S0: "?S ! 0 = ?t0" unfolding S by (simp del: upt_Suc)
  have "?it 100 = Fin False 5629499534213109 (- 49)"
    by (rule run_final [of js "Fin False 5629499534213683 (- 49)"])
       (use tenth_steps_100 in \<open>simp add: lit_vals\<close>)
  then have S100: "?S ! 100 = Fin False 5629499534213109 (- 49)"
    unfolding S by (simp only: nth_map length_upt nth_upt) simp
  note G = computeKinematics_samples [OF pos, of "lit 0 0" "lit 5 0" "lit 2 0" ?t0 ?t1 1000]
  have vals0: "r_Number_toFixed js 8 ?t0 = lit 0 0"
    "r_Number_toFixed js 8
       (r_add js (r_add js (lit 0 0) (r_mul js (lit 5 0) ?t0))
          (r_mul js (r_mul js (r_mul js (r_lit js 5 (- 1)) (lit 2 0)) ?t0) ?t0)) = lit 0 0"
    "r_Number_toFixed js 8 (r_add js (lit 5 0) (r_mul js (lit 2 0) ?t0)) = lit 5 0"
    using fix_t0 x_t0 v_t0 by (simp_all add: lit_vals)
  have vals100: "r_Number_toFixed js 8 (Fin False 5629499534213109 (- 49)) = lit 10 0"
    "r_Number_toFixed js 8
       (r_add js (r_add js (lit 0 0) (r_mul js (lit 5 0) (Fin False 5629499534213109 (- 49))))
          (r_mul js (r_mul js (r_mul js (r_lit js 5 (- 1)) (lit 2 0))
             (Fin False 5629499534213109 (- 49))) (Fin False 5629499534213109 (- 49)))) = lit 150 0"
    "r_Number_toFixed js 8 (r_add js (lit 5 0) (r_mul js (lit 2 0) (Fin False 5629499534213109 (- 49))))
       = lit 25 0"
    using fix_t100 x_t100 v_t100 by (simp_all add: lit_vals)
  have i0: "0 < length ?S" and i100: "100 < length ?S" using len by simp_all
  have "length (times_f (computeKinematics js (lit 0 0) (lit 5 0) (lit 2 0) ?t0 ?t1 ?dt 1000)) = 101"
    "length (xs_f (computeKinematics js (lit 0 0) (lit 5 0) (lit 2 0) ?t0 ?t1 ?dt 1000)) = 101"
    "length (vs_f (computeKinematics js (lit 0 0) (lit 5 0) (lit 2 0) ?t0 ?t1 ?dt 1000)) = 101"
    "length (as_f (computeKinematics js (lit 0 0) (lit 5 0) (lit 2 0) ?t0 ?t1 ?dt 1000)) = 101"
    unfolding G by (simp_all add: len)
  moreover have
    "times_f (computeKinematics js (lit 0 0) (lit 5 0) (lit 2 0) ?t0 ?t1 ?dt 1000) ! 0 = Some (lit 0 0)"
    "xs_f (computeKinematics js (lit 0 0) (lit 5 0) (lit 2 0) ?t0 ?t1 ?dt 1000) ! 0 = Some (lit 0 0)"
    "vs_f (computeKinematics js (lit 0 0) (lit 5 0) (lit 2 0) ?t0 ?t1 ?dt 1000) ! 0 = Some (lit 5 0)"
    unfolding G using i0 by (simp_all only: samples.select_convs nth_map S0 vals0)
  moreover have
    "times_f (computeKinematics js (lit 0 0) (lit 5 0) (lit 2 0) ?t0 ?t1 ?dt 1000) ! 100 = Some (lit 10 0)"
    "xs_f (computeKinematics js (lit 0 0) (lit 5 0) (lit 2 0) ?t0 ?t1 ?dt 1000) ! 100 = Some (lit 150 0)"
    "vs_f (computeKinematics js (lit 0 0) (lit 5 0) (lit 2 0) ?t0 ?t1 ?dt 1000) ! 100 = Some (lit 25 0)"
    unfolding G using i100 by (simp_all only: samples.select_convs nth_map S100 vals100)
  ultimately show ?thesis
    using computeKinematics_samples [of R dt x0 v0 a t0 t1 maxPoints]
    by (simp only: Let_def) blast
qed

theorem generate_samples_witness:
  "\<not> r_le js (lit 5 (- 1)) (r_lit js 0 0)
   \<and> times_f (computeKinematics js (lit 0 0) (lit 1 0) (lit 0 0) (lit 0 0) (lit 10 0)
                (lit 5 (- 1)) 2) = [Some (lit 0 0), Some (lit 5 (- 1))]
   \<and> xs_f (computeKinematics js (lit 0 0) (lit 1 0) (lit 0 0) (lit 0 0) (lit 10 0)
             (lit 5 (- 1)) 2) = [Some (lit 0 0), Some (lit 5 (- 1))]"
proof -
  have pos: "\<not> r_le js (lit 5 (- 1)) (r_lit js 0 0)"
    by (simp add: lit_vals js_eval cong: let_weak_cong)
  have r: "run js (r_add js (lit 10 0) (r_lit js 1 (- 12))) (lit 5 (- 1)) (max 1 2) (lit 0 0)
             = Some (lit 1 0)"
    by (simp add: lit_vals run_numeral js_eval cong: let_weak_cong)
  have S: "sample_times js (lit 0 0) (lit 10 0) (lit 5 (- 1)) 2 = [lit 0 0, lit 5 (- 1)]"
    unfolding sample_times_capped [OF r]
    by (simp add: numeral_2_eq_2 lit_vals js_eval cong: let_weak_cong)
  have v: "Number_toFixed 8 (lit 0 0) = lit 0 0"
    "Number_toFixed 8 (lit 5 (- 1)) = lit 5 (- 1)"
    "Number_toFixed 8
       (fadd (fadd (lit 0 0) (fmul (lit 1 0) (lit 0 0)))
          (fmul (fmul (fmul (lit 5 (- 1)) (lit 0 0)) (lit 0 0)) (lit 0 0))) = lit 0 0"
    "Number_toFixed 8
       (fadd (fadd (lit 0 0) (fmul (lit 1 0) (lit 5 (- 1))))
          (fmul (fmul (fmul (lit 5 (- 1)) (lit 0 0)) (lit 5 (- 1))) (lit 5 (- 1))))
       = lit 5 (- 1)"
    by (simp_all add: lit_vals js_eval cong: let_weak_cong)
  show ?thesis
    using pos
      generate_samples [of js "lit 5 (- 1)" "lit 0 0" "lit 1 0" "lit 0 0" "lit 0 0" "lit 10 0" 2,
        THEN conjunct1]
    by (simp add: S v)
qed

subsection \<open>A thousand seconds in steps of a thousandth\<close>

text \<open>
  The sample times of \<^verbatim>\<open>computeKinematics(0, 0, 0, 0, 1000, 0.001, 1000)\<close>, fifty additions
  at a time. A thousand additions of \<open>0.001\<close> give \<open>1.0000000000000007\<close>, far within the limit
  \<open>1000 + 10\<^sup>-\<^sup>1\<^sup>2\<close>.
\<close>

lemma milli_steps_0:
  "run js (Fin False 8796093022208009 (- 43)) (Fin False 4611686018427388 (- 62)) 50
     (Fin False 0 (- 1074)) = Some (Fin False 7205759403792799 (- 57))"
  by (simp add: run_numeral js_eval cong: let_weak_cong)

lemma milli_steps_50:
  "run js (Fin False 8796093022208009 (- 43)) (Fin False 4611686018427388 (- 62)) 50
     (Fin False 7205759403792799 (- 57)) = Some (Fin False 7205759403792799 (- 56))"
  by (simp add: run_numeral js_eval cong: let_weak_cong)

lemma milli_steps_100:
  "run js (Fin False 8796093022208009 (- 43)) (Fin False 4611686018427388 (- 62)) 50
     (Fin False 7205759403792799 (- 56)) = Some (Fin False 5404319552844599 (- 55))"
  by (simp add: run_numeral js_eval cong: let_weak_cong)

lemma milli_steps_150:
  "run js (Fin False 8796093022208009 (- 43)) (Fin False 4611686018427388 (- 62)) 50
     (Fin False 5404319552844599 (- 55)) = Some (Fin False 7205759403792799 (- 55))"
  by (simp add: run_numeral js_eval cong: let_weak_cong)

lemma milli_steps_200:
  "run js (Fin False 8796093022208009 (- 43)) (Fin False 4611686018427388 (- 62)) 50
     (Fin False 7205759403792799 (- 55)) = Some (Fin False 4503599627370499 (- 54))"
  by (simp add: run_numeral js_eval cong: let_weak_cong)

lemma milli_steps_250:
  "run js (Fin False 8796093022208009 (- 43)) (Fin False 4611686018427388 (- 62)) 50
     (Fin False 4503599627370499 (- 54)) = Some (Fin False 5404319552844599 (- 54))"
  by (simp add: run_numeral js_eval cong: let_weak_cong)

lemma milli_steps_300:
  "run js (Fin False 8796093022208009 (- 43)) (Fin False 4611686018427388 (- 62)) 50
     (Fin False 5404319552844599 (- 54)) = Some (Fin False 6305039478318699 (- 54))"
  by (simp add: run_numeral js_eval cong: let_weak_cong)

lemma milli_steps_350:
  "run js (Fin False 8796093022208009 (- 43)) (Fin False 4611686018427388 (- 62)) 50
     (Fin False 6305039478318699 (- 54)) = Some (Fin False 7205759403792799 (- 54))"
  by (simp add: run_numeral js_eval cong: let_weak_cong)

lemma milli_steps_400:
  "run js (Fin False 8796093022208009 (- 43)) (Fin False 4611686018427388 (- 62)) 50
     (Fin False 7205759403792799 (- 54)) = Some (Fin False 8106479329266899 (- 54))"
  by (simp add: run_numeral js_eval cong: let_weak_cong)

lemma milli_steps_450:
  "run js (Fin False 8796093022208009 (- 43)) (Fin False 4611686018427388 (- 62)) 50
     (Fin False 8106479329266899 (- 54)) = Some (Fin False 4503599627370499 (- 53))"
  by (simp add: run_numeral js_eval cong: let_weak_cong)

lemma milli_steps_500:
  "run js (Fin False 8796093022208009 (- 43)) (Fin False 4611686018427388 (- 62)) 50
     (Fin False 4503599627370499 (- 53)) = Some (Fin False 4953959590107549 (- 53))"
  by (simp add: run_numeral js_eval cong: let_weak_cong)

lemma milli_steps_550:
  "run js (Fin False 8796093022208009 (- 43)) (Fin False 4611686018427388 (- 62)) 50
     (Fin False 4953959590107549 (- 53)) = Some (Fin False 5404319552844599 (- 53))"
  by (simp add: run_numeral js_eval cong: let_weak_cong)

lemma milli_steps_600:
  "run js (Fin False 8796093022208009 (- 43)) (Fin False 4611686018427388 (- 62)) 50
     (Fin False 5404319552844599 (- 53)) = Some (Fin False 5854679515581649 (- 53))"
  by (simp add: run_numeral js_eval cong: let_weak_cong)

lemma milli_steps_650:
  "run js (Fin False 8796093022208009 (- 43)) (Fin False 4611686018427388 (- 62)) 50
     (Fin False 5854679515581649 (- 53)) = Some (Fin False 6305039478318699 (- 53))"
  by (simp add: run_numeral js_eval cong: let_weak_cong)

lemma milli_steps_700:
  "run js (Fin False 8796093022208009 (- 43)) (Fin False 4611686018427388 (- 62)) 50
     (Fin False 6305039478318699 (- 53)) = Some (Fin False 6755399441055749 (- 53))"
  by (simp add: run_numeral js_eval cong: let_weak_cong)

lemma milli_steps_750:
  "run js (Fin False 8796093022208009 (- 43)) (Fin False 4611686018427388 (- 62)) 50
     (Fin False 6755399441055749 (- 53)) = Some (Fin False 7205759403792799 (- 53))"
  by (simp add: run_numeral js_eval cong: let_weak_cong)

lemma milli_steps_800:
  "run js (Fin False 8796093022208009 (- 43)) (Fin False 4611686018427388 (- 62)) 50
     (Fin False 7205759403792799 (- 53)) = Some (Fin False 7656119366529849 (- 53))"
  by (simp add: run_numeral js_eval cong: let_weak_cong)

lemma milli_steps_850:
  "run js (Fin False 8796093022208009 (- 43)) (Fin False 4611686018427388 (- 62)) 50
     (Fin False 7656119366529849 (- 53)) = Some (Fin False 8106479329266899 (- 53))"
  by (simp add: run_numeral js_eval cong: let_weak_cong)

lemma milli_steps_900:
  "run js (Fin False 8796093022208009 (- 43)) (Fin False 4611686018427388 (- 62)) 50
     (Fin False 8106479329266899 (- 53)) = Some (Fin False 8556839292003949 (- 53))"
  by (simp add: run_numeral js_eval cong: let_weak_cong)

lemma milli_steps_950:
  "run js (Fin False 8796093022208009 (- 43)) (Fin False 4611686018427388 (- 62)) 50
     (Fin False 8556839292003949 (- 53)) = Some (Fin False 4503599627370499 (- 52))"
  by (simp add: run_numeral js_eval cong: let_weak_cong)

lemma milli_steps_1000:
  "run js (Fin False 8796093022208009 (- 43)) (Fin False 4611686018427388 (- 62)) 1000
     (Fin False 0 (- 1074)) = Some (Fin False 4503599627370499 (- 52))"
proof -
  note s = milli_steps_0
  note s = run_chain [OF s milli_steps_50, simplified]
  note s = run_chain [OF s milli_steps_100, simplified]
  note s = run_chain [OF s milli_steps_150, simplified]
  note s = run_chain [OF s milli_steps_200, simplified]
  note s = run_chain [OF s milli_steps_250, simplified]
  note s = run_chain [OF s milli_steps_300, simplified]
  note s = run_chain [OF s milli_steps_350, simplified]
  note s = run_chain [OF s milli_steps_400, simplified]
  note s = run_chain [OF s milli_steps_450, simplified]
  note s = run_chain [OF s milli_steps_500, simplified]
  note s = run_chain [OF s milli_steps_550, simplified]
  note s = run_chain [OF s milli_steps_600, simplified]
  note s = run_chain [OF s milli_steps_650, simplified]
  note s = run_chain [OF s milli_steps_700, simplified]
  note s = run_chain [OF s milli_steps_750, simplified]
  note s = run_chain [OF s milli_steps_800, simplified]
  note s = run_chain [OF s milli_steps_850, simplified]
  note s = run_chain [OF s milli_steps_900, simplified]
  note s = run_chain [OF s milli_steps_950, simplified]
  show ?thesis by (rule s)
qed

lemma lim_1000: "fadd (Fin False 8796093022208000 (- 43)) (Fin False 4951760157141521 (- 92)) = Fin False 8796093022208009 (- 43)"
  by (simp add: js_eval cong: let_weak_cong)

lemma within_1000: "fle (Fin False 4503599627370499 (- 52)) (Fin False 8796093022208009 (- 43))"
  by (simp add: js_eval cong: let_weak_cong)

lemma dt_b_pos: "\<not> fle (Fin False 4611686018427388 (- 62)) (Fin False 0 (- 1074))"
  by (simp add: js_eval cong: let_weak_cong)

text \<open>
  \<^bold>\<open>C7\<close> (as amended). For every \<open>maxPoints \<ge> 1\<close>, \<^verbatim>\<open>computeKinematics\<close> returns at
  most \<open>maxPoints\<close> points; when \<^verbatim>\<open>dt <= 0\<close> does not hold and the first \<open>maxPoints\<close> sample
  times all pass the test \<^verbatim>\<open>t <= t1 + 1e-12\<close>, it returns exactly \<open>maxPoints\<close> points, in four
  arrays of that length. In double-precision arithmetic,
  \<^verbatim>\<open>computeKinematics(0, 0, 0, 0, 1000, 0.001, 1000)\<close> returns exactly 1000 points, and the
  sample time after the last one stored still passes the test: \<open>t1\<close> has not been reached.
\<close>

theorem truncation_at_maxPoints:
  "(1 \<le> maxPoints \<longrightarrow>
      length (times_f (computeKinematics R x0 v0 a t0 t1 dt maxPoints)) \<le> maxPoints)
   \<and> (1 \<le> maxPoints \<and> \<not> r_le R dt (r_lit R 0 0)
      \<and> (\<forall>k<maxPoints. r_le R (((\<lambda>t. r_add R t dt) ^^ k) t0) (r_add R t1 (r_lit R 1 (- 12))))
      \<longrightarrow> length (times_f (computeKinematics R x0 v0 a t0 t1 dt maxPoints)) = maxPoints
          \<and> equal_lengths (computeKinematics R x0 v0 a t0 t1 dt maxPoints))
   \<and> (let G = computeKinematics js (lit 0 0) (lit 0 0) (lit 0 0) (lit 0 0) (lit 1000 0)
                (lit 1 (- 3)) 1000
      in length (times_f G) = 1000 \<and> length (xs_f G) = 1000 \<and> length (vs_f G) = 1000
         \<and> length (as_f G) = 1000
         \<and> r_le js (((\<lambda>t. r_add js t (lit 1 (- 3))) ^^ 1000) (lit 0 0))
              (r_add js (lit 1000 0) (r_lit js 1 (- 12))))"
proof -
  have A: "length (times_f (computeKinematics R x0 v0 a t0 t1 dt maxPoints)) \<le> maxPoints"
    if "1 \<le> maxPoints"
    using that length_sample_times_le [of R t0 t1 dt maxPoints]
    by (simp add: computeKinematics_length)
  have B: "length (times_f (computeKinematics R x0 v0 a t0 t1 dt maxPoints)) = maxPoints"
    if "1 \<le> maxPoints" "\<not> r_le R dt (r_lit R 0 0)"
      "\<forall>k<maxPoints. r_le R (((\<lambda>t. r_add R t dt) ^^ k) t0) (r_add R t1 (r_lit R 1 (- 12)))"
  proof -
    have m: "max 1 maxPoints = maxPoints" using that(1) by simp
    show ?thesis
      using sample_times_all [of maxPoints R dt t0 t1] that by (simp add: computeKinematics_length m)
  qed
  let ?t0 = "lit 0 0" and ?dt = "lit 1 (- 3)" and ?t1 = "lit 1000 0"
  let ?G = "computeKinematics js (lit 0 0) (lit 0 0) (lit 0 0) ?t0 ?t1 ?dt 1000"
  have pos: "\<not> r_le js ?dt (r_lit js 0 0)"
    using dt_b_pos by (simp add: lit_vals)
  have r: "run js (r_add js ?t1 (r_lit js 1 (- 12))) ?dt (max 1 1000) ?t0
             = Some (Fin False 4503599627370499 (- 52))"
    using milli_steps_1000 by (simp add: lit_vals lim_1000)
  have "length (sample_times js ?t0 ?t1 ?dt 1000) = 1000"
    using sample_times_capped [OF r] by simp
  then have len: "length (times_f ?G) = 1000"
    using pos by (simp add: computeKinematics_length)
  have eq: "equal_lengths ?G" by (rule computeKinematics_equal_lengths)
  have "((\<lambda>t. r_add js t ?dt) ^^ 1000) ?t0 = Fin False 4503599627370499 (- 52)"
    by (rule run_final [of js "Fin False 8796093022208009 (- 43)"])
       (use milli_steps_1000 in \<open>simp add: lit_vals\<close>)
  then have beyond: "r_le js (((\<lambda>t. r_add js t ?dt) ^^ 1000) ?t0) (r_add js ?t1 (r_lit js 1 (- 12)))"
    using within_1000 by (simp add: lit_vals lim_1000)
  have C: "length (times_f ?G) = 1000 \<and> length (xs_f ?G) = 1000 \<and> length (vs_f ?G) = 1000
           \<and> length (as_f ?G) = 1000"
    using len eq by (simp add: equal_lengths_def)
  show ?thesis
    using A B C beyond computeKinematics_equal_lengths [of R x0 v0 a t0 t1 dt maxPoints]
    by (simp only: Let_def) blast
qed

theorem truncation_at_maxPoints_witness:
  "1 \<le> (2::nat) \<and> \<not> r_le js (lit 5 (- 1)) (r_lit js 0 0)
   \<and> length (times_f (computeKinematics js (lit 0 0) (lit 1 0) (lit 0 0) (lit 0 0) (lit 10 0)
                        (lit 5 (- 1)) 2)) = 2"
proof -
  have pos: "\<not> r_le js (lit 5 (- 1)) (r_lit js 0 0)"
    by (simp add: lit_vals js_eval cong: let_weak_cong)
  have w: "\<forall>k<2. r_le js (((\<lambda>t. r_add js t (lit 5 (- 1))) ^^ k) (lit 0 0))
                    (r_add js (lit 10 0) (r_lit js 1 (- 12)))"
    by (simp add: less_2_cases_iff lit_vals js_eval cong: let_weak_cong)
  show ?thesis
    using pos w
      truncation_at_maxPoints [of 2 js "lit 0 0" "lit 1 0" "lit 0 0" "lit 0 0" "lit 10 0" "lit 5 (- 1)",
        THEN conjunct2, THEN conjunct1]
    by simp
qed

text \<open>
  The claim as stated, for every input, fails at \<open>maxPoints = 0\<close>: the cap is tested after
  the first push, so one point is returned, not zero.
\<close>

theorem maxPoints_zero_counterexample:
  "length (times_f (computeKinematics js (lit 0 0) (lit 0 0) (lit 0 0) (lit 0 0) (lit 1000 0)
                      (lit 1 (- 3)) 0)) = 1"
proof -
  have pos: "\<not> r_le js (lit 1 (- 3)) (r_lit js 0 0)"
    using dt_b_pos by (simp add: lit_vals)
  have r: "run js (r_add js (lit 1000 0) (r_lit js 1 (- 12))) (lit 1 (- 3)) (max 1 0) (lit 0 0)
             = Some (r_add js (lit 0 0) (lit 1 (- 3)))"
    by (simp add: lit_vals lim_1000 js_eval cong: let_weak_cong)
  have "length (sample_times js (lit 0 0) (lit 1000 0) (lit 1 (- 3)) 0) = 1"
    using sample_times_capped [OF r] by simp
  then show ?thesis
    using pos by (simp add: computeKinematics_length)
qed

end
